theory Spec2Isabelle
  imports Complex_Main "HOL-Library.Multiset"
begin

section \<open>JavaScript values used by the aggregation engine\<close>

text \<open>
  Item costs are finite numbers (the \<^verbatim>\<open>cost DECIMAL(10,2)\<close> column read through
  \<^verbatim>\<open>Number(item.cost)\<close>); they and their sums are modelled as exact reals, so the
  rounding of IEEE doubles is not part of the model.  A value that the engine derives by
  a division, a subtraction of timestamps or \<^verbatim>\<open>Math.max\<close> is a \<open>jsnum\<close>: a finite
  number, one of the two infinities, or \<^verbatim>\<open>NaN\<close>.  Every zero is the positive zero.
\<close>

datatype jsnum = Num real | PosInf | NegInf | NaN

text \<open>The binary minus of two numbers.\<close>

fun js_sub :: "jsnum \<Rightarrow> jsnum \<Rightarrow> jsnum" where
  "js_sub NaN y = NaN"
| "js_sub x NaN = NaN"
| "js_sub (Num a) (Num b) = Num (a - b)"
| "js_sub (Num a) PosInf = NegInf"
| "js_sub (Num a) NegInf = PosInf"
| "js_sub PosInf PosInf = NaN"
| "js_sub PosInf y = PosInf"
| "js_sub NegInf NegInf = NaN"
| "js_sub NegInf y = NegInf"

text \<open>The product of two numbers; an infinity times zero is \<^verbatim>\<open>NaN\<close>.\<close>

fun js_mul :: "jsnum \<Rightarrow> jsnum \<Rightarrow> jsnum" where
  "js_mul NaN y = NaN"
| "js_mul x NaN = NaN"
| "js_mul (Num a) (Num b) = Num (a * b)"
| "js_mul (Num a) PosInf = (if a = 0 then NaN else if 0 < a then PosInf else NegInf)"
| "js_mul (Num a) NegInf = (if a = 0 then NaN else if 0 < a then NegInf else PosInf)"
| "js_mul PosInf (Num b) = (if b = 0 then NaN else if 0 < b then PosInf else NegInf)"
| "js_mul NegInf (Num b) = (if b = 0 then NaN else if 0 < b then NegInf else PosInf)"
| "js_mul PosInf PosInf = PosInf"
| "js_mul PosInf NegInf = NegInf"
| "js_mul NegInf PosInf = NegInf"
| "js_mul NegInf NegInf = PosInf"

text \<open>
  The quotient of two numbers: \<^verbatim>\<open>0 / 0\<close> is \<^verbatim>\<open>NaN\<close>, any other finite number over
  zero is an infinity, no division raises.
\<close>

fun js_div :: "jsnum \<Rightarrow> jsnum \<Rightarrow> jsnum" where
  "js_div NaN y = NaN"
| "js_div x NaN = NaN"
| "js_div (Num a) (Num b) =
     (if b \<noteq> 0 then Num (a / b)
      else if a = 0 then NaN else if 0 < a then PosInf else NegInf)"
| "js_div (Num a) PosInf = Num 0"
| "js_div (Num a) NegInf = Num 0"
| "js_div PosInf (Num b) = (if 0 \<le> b then PosInf else NegInf)"
| "js_div NegInf (Num b) = (if 0 \<le> b then NegInf else PosInf)"
| "js_div PosInf y = NaN"
| "js_div NegInf y = NaN"

text \<open>The comparisons \<^verbatim>\<open><\<close> and \<^verbatim>\<open>>\<close>: false as soon as one side is \<^verbatim>\<open>NaN\<close>.\<close>

fun js_lt :: "jsnum \<Rightarrow> jsnum \<Rightarrow> bool" where
  "js_lt NaN y = False"
| "js_lt x NaN = False"
| "js_lt (Num a) (Num b) = (a < b)"
| "js_lt (Num a) PosInf = True"
| "js_lt (Num a) NegInf = False"
| "js_lt PosInf y = False"
| "js_lt NegInf NegInf = False"
| "js_lt NegInf y = True"

definition js_gt :: "jsnum \<Rightarrow> jsnum \<Rightarrow> bool" where
  "js_gt x y = js_lt y x"

text \<open>\<^verbatim>\<open>Math.max(x, y)\<close>: \<^verbatim>\<open>NaN\<close> as soon as one argument is.\<close>

fun js_max :: "jsnum \<Rightarrow> jsnum \<Rightarrow> jsnum" where
  "js_max NaN y = NaN"
| "js_max x NaN = NaN"
| "js_max x y = (if js_lt x y then y else x)"

text \<open>A number that is finite and at least zero.\<close>

fun js_nonneg :: "jsnum \<Rightarrow> bool" where
  "js_nonneg (Num a) = (0 \<le> a)"
| "js_nonneg x = False"

subsection \<open>Arrays\<close>

text \<open>
  \<^verbatim>\<open>xs.slice(start, end)\<close>; a missing \<^verbatim>\<open>end\<close> is \<open>None\<close>.  Negative positions
  count from the end of the array and every position is clamped into it.
\<close>

definition js_slice :: "int \<Rightarrow> int option \<Rightarrow> 'a list \<Rightarrow> 'a list" where
  "js_slice start end xs =
     (let len = int (length xs);
          k = (if start < 0 then max (len + start) 0 else min start len);
          relEnd = (case end of None \<Rightarrow> len | Some e \<Rightarrow> e);
          final = (if relEnd < 0 then max (len + relEnd) 0 else min relEnd len)
      in take (nat (final - k)) (drop (nat k) xs))"

text \<open>\<^verbatim>\<open>xs.reduce(f, init)\<close>, where \<open>f\<close> takes the accumulator first.\<close>

definition js_reduce :: "('b \<Rightarrow> 'a \<Rightarrow> 'b) \<Rightarrow> 'b \<Rightarrow> 'a list \<Rightarrow> 'b" where
  "js_reduce f init xs = fold (\<lambda>x acc. f acc x) xs init"

text \<open>\<^verbatim>\<open>xs[i]\<close>, which is \<^verbatim>\<open>undefined\<close> (\<open>None\<close>) out of range.\<close>

fun js_index :: "'a list \<Rightarrow> nat \<Rightarrow> 'a option" where
  "js_index [] i = None"
| "js_index (x # xs) 0 = Some x"
| "js_index (x # xs) (Suc i) = js_index xs i"

text \<open>
  \<^verbatim>\<open>xs.sort(cmp)\<close>.  The sort of ECMAScript is stable, and a comparator result that
  is \<^verbatim>\<open>NaN\<close> counts as zero: an element moves behind another one only when the
  comparator returns a number above zero.  For a consistent comparator the result of
  every stable sort is the same; it is computed here by insertion.  (For an inconsistent
  comparator ECMAScript leaves the order to the implementation.)
\<close>

fun js_insort :: "('a \<Rightarrow> 'a \<Rightarrow> jsnum) \<Rightarrow> 'a \<Rightarrow> 'a list \<Rightarrow> 'a list" where
  "js_insort cmp x [] = [x]"
| "js_insort cmp x (y # ys) =
     (if js_gt (cmp x y) (Num 0) then y # js_insort cmp x ys else x # y # ys)"

definition js_sort :: "('a \<Rightarrow> 'a \<Rightarrow> jsnum) \<Rightarrow> 'a list \<Rightarrow> 'a list" where
  "js_sort cmp xs = foldr (js_insort cmp) xs []"

subsection \<open>Maps in insertion order\<close>

text \<open>
  A \<^verbatim>\<open>Map\<close> iterates over its keys in the order of their first insertion, so it is a
  list of pairs with distinct keys: \<^verbatim>\<open>has\<close> and \<^verbatim>\<open>get\<close> look a key up, \<^verbatim>\<open>set\<close>
  replaces the value of a key where it stands or appends a new key at the end.
\<close>

definition map_has :: "('k \<times> 'v) list \<Rightarrow> 'k \<Rightarrow> bool" where
  "map_has m k = (map_of m k \<noteq> None)"

definition map_get :: "('k \<times> 'v) list \<Rightarrow> 'k \<Rightarrow> 'v option" where
  "map_get m k = map_of m k"

fun map_set :: "'k \<Rightarrow> 'v \<Rightarrow> ('k \<times> 'v) list \<Rightarrow> ('k \<times> 'v) list" where
  "map_set k v [] = [(k, v)]"
| "map_set k v ((k', v') # m) =
     (if k' = k then (k, v) # m else (k', v') # map_set k v m)"


section \<open>Record model\<close>

text \<open>
  The declarations of \<^verbatim>\<open>ReportItem\<close> and \<^verbatim>\<open>Report\<close> (\<^verbatim>\<open>types/report.ts\<close>, which the
  sources hold behind \<^verbatim>\<open>types/ai.ts\<close>).  The field \<^verbatim>\<open>id\<close> is written \<open>item_id\<close> and
  \<open>report_id\<close>, \<open>id\<close> being the identity of HOL.
\<close>

datatype report_type = Verification | Recovery | PostDisbursement

record ReportItem =
  item_id :: string
  location :: string
  transportation :: string
  cost :: real

record Report =
  report_id :: string
  reportType :: report_type
  reportDate :: string
  description :: string
  items :: "ReportItem list"
  totalCost :: real
  accountNumber :: string
  accountName :: string
  bankName :: string
  createdAt :: string

section \<open>Aggregation engine (\<^verbatim>\<open>hooks/useAIAnalysis.ts\<close>)\<close>

text \<open>
  An item of \<^verbatim>\<open>allTransportItems\<close> is a copy of a report item that also carries the
  type, the date and the id of its report (\<^verbatim>\<open>{...item, reportType, reportDate, reportId}\<close>);
  the three added fields are written with the prefix \<open>ti_\<close>.
\<close>

record TransportItem = ReportItem +
  ti_reportType :: report_type
  ti_reportDate :: string
  ti_reportId :: string

definition allTransportItems :: "Report list \<Rightarrow> TransportItem list" where
  "allTransportItems reports =
     concat (map (\<lambda>report. map (\<lambda>item.
        \<lparr>item_id = item_id item, location = location item,
         transportation = transportation item, cost = cost item,
         ti_reportType = reportType report, ti_reportDate = reportDate report,
         ti_reportId = report_id report\<rparr>) (items report)) reports)"

subsection \<open>Transport patterns by location\<close>

datatype trend = Increasing | Decreasing | Stable

record visit =
  v_cost :: real
  v_transportation :: string
  v_date :: string

record location_data =
  visits :: "visit list"
  ld_totalCost :: real

record TransportPattern =
  tp_location :: string
  visitCount :: nat
  tp_totalCost :: real
  tp_averageCost :: jsnum
  transportationTypes :: "(string \<times> nat) list"
  lastVisited :: string
  costTrend :: trend
  tp_efficiency :: jsnum
  tp_recommendations :: "string list"

text \<open>
  The body of the first \<^verbatim>\<open>forEach\<close>: create the entry of the location when the map
  has none, then push the visit and add its cost.  The entry exists when it is read, so
  the branch \<open>None\<close> is never taken.
\<close>

definition locationMap_step ::
  "(string \<times> location_data) list \<Rightarrow> TransportItem \<Rightarrow> (string \<times> location_data) list" where
  "locationMap_step locationMap item =
     (let m = (if \<not> map_has locationMap (location item)
               then map_set (location item) \<lparr>visits = [], ld_totalCost = 0\<rparr> locationMap
               else locationMap)
      in case map_get m (location item) of
           None \<Rightarrow> m
         | Some loc \<Rightarrow>
             map_set (location item)
               (loc\<lparr>visits := visits loc @
                      [\<lparr>v_cost = cost item, v_transportation = transportation item,
                        v_date = ti_reportDate item\<rparr>],
                    ld_totalCost := ld_totalCost loc + cost item\<rparr>) m)"

definition locationMap_of :: "TransportItem list \<Rightarrow> (string \<times> location_data) list" where
  "locationMap_of allItems = fold (\<lambda>item m. locationMap_step m item) allItems []"

text \<open>The two windows of the cost trend, taken from the visits sorted by date.\<close>

definition recentCosts_of :: "visit list \<Rightarrow> real list" where
  "recentCosts_of sortedVisits = map v_cost (js_slice (- 3) None sortedVisits)"

definition olderCosts_of :: "visit list \<Rightarrow> real list" where
  "olderCosts_of sortedVisits = map v_cost (js_slice 0 (Some 3) sortedVisits)"

text \<open>\<^verbatim>\<open>costs.reduce((a, b) => a + b, 0) / costs.length\<close>\<close>

definition window_avg :: "real list \<Rightarrow> jsnum" where
  "window_avg costs =
     js_div (Num (js_reduce (\<lambda>a b. a + b) 0 costs)) (Num (real (length costs)))"

definition costTrend_of :: "visit list \<Rightarrow> trend" where
  "costTrend_of sortedVisits =
     (let recentCosts = recentCosts_of sortedVisits;
          olderCosts = olderCosts_of sortedVisits
      in if 2 \<le> length recentCosts \<and> 2 \<le> length olderCosts
         then (let recentAvg = window_avg recentCosts;
                   olderAvg = window_avg olderCosts
               in if js_gt recentAvg (js_mul olderAvg (Num 1.1)) then Increasing
                  else if js_lt recentAvg (js_mul olderAvg (Num 0.9)) then Decreasing
                  else Stable)
         else Stable)"

text \<open>
  \<^verbatim>\<open>data.visits.sort((a, b) => new Date(a.date).getTime() - new Date(b.date).getTime())\<close>.
  The platform's \<^verbatim>\<open>new Date(s).getTime()\<close> is the parameter \<open>getTime\<close>: the
  milliseconds of the date, or \<^verbatim>\<open>NaN\<close> for a string that is no date.
\<close>

definition sortedVisits_of :: "(string \<Rightarrow> jsnum) \<Rightarrow> visit list \<Rightarrow> visit list" where
  "sortedVisits_of getTime vs =
     js_sort (\<lambda>a b. js_sub (getTime (v_date a)) (getTime (v_date b))) vs"

text \<open>
  The histogram \<^verbatim>\<open>acc[t] = (acc[t] || 0) + 1\<close>, kept in the order in which the labels
  are first seen.  The histogram of the source is a plain object: it lists integer-like
  keys first, and for a label that names a property of \<^verbatim>\<open>Object.prototype\<close> its
  lookup finds that property.  The model is the histogram for all other labels; no
  property below depends on it.
\<close>

definition transportationTypes_of :: "visit list \<Rightarrow> (string \<times> nat) list" where
  "transportationTypes_of vs =
     js_reduce (\<lambda>acc v. map_set (v_transportation v)
        ((case map_get acc (v_transportation v) of None \<Rightarrow> 0 | Some c \<Rightarrow> c) + 1) acc) [] vs"

text \<open>
  \<^verbatim>\<open>sortedVisits[sortedVisits.length - 1]?.date || ''\<close>: the date of the last visit, the
  empty string when there is none (or when that date is the empty string).
\<close>

definition lastVisited_of :: "visit list \<Rightarrow> string" where
  "lastVisited_of sortedVisits =
     (case (if sortedVisits = [] then None
            else js_index sortedVisits (length sortedVisits - 1)) of
        None \<Rightarrow> []
      | Some v \<Rightarrow> (if v_date v = [] then [] else v_date v))"

text \<open>The function mapped over the entries of the location map.\<close>

definition pattern_of :: "(string \<Rightarrow> jsnum) \<Rightarrow> string \<times> location_data \<Rightarrow> TransportPattern" where
  "pattern_of getTime entry =
     (let data = snd entry;
          n = length (visits data);
          averageCost = js_div (Num (ld_totalCost data)) (Num (real n));
          types = transportationTypes_of (visits data);
          sortedVisits = sortedVisits_of getTime (visits data);
          trend = costTrend_of sortedVisits;
          efficiency = js_max (Num 0) (js_sub (Num 100) (js_div averageCost (Num 50)));
          recommendations =
            (if js_gt averageCost (Num 2000)
             then [''Consider more cost-effective transportation options''] else []) @
            (if n < 3
             then [''Limited visits - consider if this location is necessary''] else []) @
            (if trend = Increasing
             then [''Costs are increasing - monitor this location''] else [])
      in \<lparr>tp_location = fst entry, visitCount = n, tp_totalCost = ld_totalCost data,
          tp_averageCost = averageCost, transportationTypes = types,
          lastVisited = lastVisited_of sortedVisits, costTrend = trend,
          tp_efficiency = efficiency, tp_recommendations = recommendations\<rparr>)"

text \<open>The patterns, sorted by \<^verbatim>\<open>b.visitCount - a.visitCount\<close>.\<close>

definition transportPatterns :: "(string \<Rightarrow> jsnum) \<Rightarrow> TransportItem list \<Rightarrow> TransportPattern list" where
  "transportPatterns getTime allItems =
     js_sort (\<lambda>a b. js_sub (Num (real (visitCount b))) (Num (real (visitCount a))))
       (map (pattern_of getTime) (locationMap_of allItems))"


subsection \<open>Route analysis\<close>

text \<open>
  Strings are sequences of bytes in UTF-8.  The separator of a route key is a space, the
  arrow U+2192 (the bytes E2 86 92) and a space.
\<close>

definition routeSep :: string where
  "routeSep = [CHR '' '', CHR 0xE2, CHR 0x86, CHR 0x92, CHR '' '']"

text \<open>
  \<^verbatim>\<open>s.split(sep)\<close> for a separator that is not empty: the pieces between the
  occurrences of the separator, found from left to right (\<open>acc\<close> holds the current piece,
  reversed).
\<close>

function js_split_from :: "string \<Rightarrow> string \<Rightarrow> string \<Rightarrow> string list" where
  "js_split_from sep acc [] = [rev acc]"
| "js_split_from sep acc (c # cs) =
     (if sep \<noteq> [] \<and> take (length sep) (c # cs) = sep
      then rev acc # js_split_from sep [] (drop (length sep) (c # cs))
      else js_split_from sep (c # acc) cs)"
  by pat_completeness auto
termination
  by (relation "measure (\<lambda>(sep, acc, s). length s)") auto

definition js_split :: "string \<Rightarrow> string \<Rightarrow> string list" where
  "js_split sep s = js_split_from sep [] s"

record route_data =
  rd_frequency :: nat
  rd_totalCost :: real
  rd_costs :: "real list"

record frequent_route =
  fr_from :: "string option"
  fr_to :: "string option"
  fr_frequency :: nat
  fr_averageCost :: jsnum
  fr_efficiency :: jsnum

text \<open>
  The body of the inner loop for the neighbours \<^verbatim>\<open>sortedItems[i]\<close> and
  \<^verbatim>\<open>sortedItems[i + 1]\<close>: the cost that is added is the one of the first of the two.
\<close>

definition routeMap_step ::
  "(string \<times> route_data) list \<Rightarrow> ReportItem \<Rightarrow> ReportItem \<Rightarrow> (string \<times> route_data) list" where
  "routeMap_step routeMap a b =
     (let routeKey = location a @ routeSep @ location b;
          m = (if \<not> map_has routeMap routeKey
               then map_set routeKey \<lparr>rd_frequency = 0, rd_totalCost = 0, rd_costs = []\<rparr> routeMap
               else routeMap)
      in case map_get m routeKey of
           None \<Rightarrow> m
         | Some route \<Rightarrow>
             map_set routeKey
               (route\<lparr>rd_frequency := rd_frequency route + 1,
                      rd_totalCost := rd_totalCost route + cost a,
                      rd_costs := rd_costs route @ [cost a]\<rparr>) m)"

text \<open>The loop \<^verbatim>\<open>for (let i = 0; i < sortedItems.length - 1; i++)\<close>.\<close>

fun routeMap_loop ::
  "(string \<times> route_data) list \<Rightarrow> ReportItem list \<Rightarrow> (string \<times> route_data) list" where
  "routeMap_loop routeMap (a # b # rest) = routeMap_loop (routeMap_step routeMap a b) (b # rest)"
| "routeMap_loop routeMap rest = routeMap"

text \<open>
  \<^verbatim>\<open>report.items.sort((a, b) => a.location.localeCompare(b.location))\<close>.  The
  collation of the platform is the parameter \<open>localeCompare\<close>.  The sort works on the
  array of the report itself, so the report is left with its items in sorted order.
\<close>

definition sortedItems_of :: "(string \<Rightarrow> string \<Rightarrow> int) \<Rightarrow> ReportItem list \<Rightarrow> ReportItem list" where
  "sortedItems_of localeCompare its =
     js_sort (\<lambda>a b. Num (real_of_int (localeCompare (location a) (location b)))) its"

text \<open>
  The body of \<^verbatim>\<open>reports.forEach\<close>; the state is the route map and the reports
  visited so far, as the loop leaves them.
\<close>

definition routeMap_report ::
  "(string \<Rightarrow> string \<Rightarrow> int) \<Rightarrow> (string \<times> route_data) list \<times> Report list \<Rightarrow> Report
   \<Rightarrow> (string \<times> route_data) list \<times> Report list" where
  "routeMap_report localeCompare st report =
     (let sortedItems = sortedItems_of localeCompare (items report)
      in (routeMap_loop (fst st) sortedItems, snd st @ [report\<lparr>items := sortedItems\<rparr>]))"

definition routeMap_of ::
  "(string \<Rightarrow> string \<Rightarrow> int) \<Rightarrow> Report list \<Rightarrow> (string \<times> route_data) list \<times> Report list" where
  "routeMap_of localeCompare reports =
     fold (\<lambda>report st. routeMap_report localeCompare st report) reports ([], [])"

text \<open>
  The function mapped over the entries of the route map: the key is split at the
  separator and its first two pieces are \<^verbatim>\<open>from\<close> and \<^verbatim>\<open>to\<close>.
\<close>

definition route_of :: "string \<times> route_data \<Rightarrow> frequent_route" where
  "route_of entry =
     (let parts = js_split routeSep (fst entry);
          data = snd entry;
          averageCost = js_div (Num (rd_totalCost data)) (Num (real (rd_frequency data)));
          efficiency = js_max (Num 0) (js_sub (Num 100) (js_div averageCost (Num 50)))
      in \<lparr>fr_from = js_index parts 0, fr_to = js_index parts 1,
          fr_frequency = rd_frequency data, fr_averageCost = averageCost,
          fr_efficiency = efficiency\<rparr>)"

definition frequentRoutes_of :: "(string \<times> route_data) list \<Rightarrow> frequent_route list" where
  "frequentRoutes_of routeMap =
     js_slice 0 (Some 10)
       (js_sort (\<lambda>a b. js_sub (Num (real (fr_frequency b))) (Num (real (fr_frequency a))))
          (map route_of routeMap))"

text \<open>
  The route analysis: the frequent routes that it returns, and the reports as it leaves
  them.  Its two other results, \<^verbatim>\<open>coverageMap\<close> and \<^verbatim>\<open>optimalRoute\<close>, are computed
  from the transport patterns alone; they read neither the route map nor the reports and
  are not part of this model.
\<close>

definition routeAnalysis ::
  "(string \<Rightarrow> string \<Rightarrow> int) \<Rightarrow> Report list \<Rightarrow> frequent_route list \<times> Report list" where
  "routeAnalysis localeCompare reports =
     (let st = routeMap_of localeCompare reports
      in (frequentRoutes_of (fst st), snd st))"

subsection \<open>Transport-mode efficiency\<close>

record efficiency_data =
  usage :: nat
  ed_totalCost :: real
  ed_costs :: "real list"

text \<open>
  The result without its field \<^verbatim>\<open>aiInsights\<close>, three display sentences built from
  \<^verbatim>\<open>usage\<close>, \<^verbatim>\<open>averageCost\<close> and the rounded efficiency.
\<close>

record TransportEfficiency =
  transportationType :: string
  totalUsage :: nat
  te_totalCost :: real
  te_averageCost :: jsnum
  te_efficiency :: jsnum
  te_recommendations :: "string list"

definition efficiencyMap_step ::
  "(string \<times> efficiency_data) list \<Rightarrow> TransportItem \<Rightarrow> (string \<times> efficiency_data) list" where
  "efficiencyMap_step efficiencyMap item =
     (let m = (if \<not> map_has efficiencyMap (transportation item)
               then map_set (transportation item)
                      \<lparr>usage = 0, ed_totalCost = 0, ed_costs = []\<rparr> efficiencyMap
               else efficiencyMap)
      in case map_get m (transportation item) of
           None \<Rightarrow> m
         | Some transport \<Rightarrow>
             map_set (transportation item)
               (transport\<lparr>usage := usage transport + 1,
                          ed_totalCost := ed_totalCost transport + cost item,
                          ed_costs := ed_costs transport @ [cost item]\<rparr>) m)"

definition efficiencyMap_of :: "TransportItem list \<Rightarrow> (string \<times> efficiency_data) list" where
  "efficiencyMap_of allItems = fold (\<lambda>item m. efficiencyMap_step m item) allItems []"

definition efficiency_of :: "string \<times> efficiency_data \<Rightarrow> TransportEfficiency" where
  "efficiency_of entry =
     (let data = snd entry;
          averageCost = js_div (Num (ed_totalCost data)) (Num (real (usage data)));
          efficiency = js_max (Num 0) (js_sub (Num 100) (js_div averageCost (Num 100)));
          recommendations =
            (if js_gt averageCost (Num 2000)
             then [''Consider more cost-effective alternatives''] else []) @
            (if usage data < 5
             then [''Limited usage - evaluate if this transport type is necessary''] else [])
      in \<lparr>transportationType = fst entry, totalUsage = usage data,
          te_totalCost = ed_totalCost data, te_averageCost = averageCost,
          te_efficiency = efficiency, te_recommendations = recommendations\<rparr>)"

text \<open>The entries, sorted by \<^verbatim>\<open>b.efficiency - a.efficiency\<close>.\<close>

definition transportEfficiency :: "TransportItem list \<Rightarrow> TransportEfficiency list" where
  "transportEfficiency allItems =
     js_sort (\<lambda>a b. js_sub (te_efficiency b) (te_efficiency a))
       (map efficiency_of (efficiencyMap_of allItems))"


subsection \<open>Insights summary: the cost analysis\<close>

text \<open>
  Of the object that \<^verbatim>\<open>generateAIInsights\<close> builds, the model keeps the field
  \<^verbatim>\<open>costAnalysis\<close>.  On a collection of ordinary size the only expression of the
  function that can raise is \<^verbatim>\<open>new Date(item.reportDate).toISOString()\<close>, a
  \<^verbatim>\<open>RangeError\<close> for a string that is no date; the parameter \<open>isoMonth\<close> is the platform's
  \<^verbatim>\<open>new Date(s).toISOString().slice(0, 7)\<close>, with \<open>None\<close> where it raises.
\<close>

datatype js_error = RangeError

datatype cost_efficiency = High | Medium | Low

record costAnalysis =
  totalSpent :: real
  averagePerVisit :: jsnum
  monthlyTrend :: real
  costEfficiency :: cost_efficiency
  projectedAnnualCost :: real

text \<open>\<^verbatim>\<open>monthlyData.get(month) || 0\<close>: zero for a missing month (and for a total of zero).\<close>

definition or_zero :: "real option \<Rightarrow> real" where
  "or_zero v = (case v of None \<Rightarrow> 0 | Some x \<Rightarrow> (if x = 0 then 0 else x))"

fun monthlyData_loop ::
  "(string \<Rightarrow> string option) \<Rightarrow> (string \<times> real) list \<Rightarrow> TransportItem list
   \<Rightarrow> js_error + (string \<times> real) list" where
  "monthlyData_loop isoMonth monthlyData [] = Inr monthlyData"
| "monthlyData_loop isoMonth monthlyData (item # rest) =
     (case isoMonth (ti_reportDate item) of
        None \<Rightarrow> Inl RangeError
      | Some month \<Rightarrow>
          monthlyData_loop isoMonth
            (map_set month (or_zero (map_get monthlyData month) + cost item) monthlyData) rest)"

text \<open>\<^verbatim>\<open>Array.from(monthlyData.values()).slice(-2).reduce((a, b) => b - a, 0)\<close>\<close>

definition monthlyTrend_of :: "(string \<times> real) list \<Rightarrow> real" where
  "monthlyTrend_of monthlyData =
     js_reduce (\<lambda>a b. b - a) 0 (js_slice (- 2) None (map snd monthlyData))"

definition generateAIInsights_costAnalysis ::
  "(string \<Rightarrow> string option) \<Rightarrow> TransportItem list \<Rightarrow> js_error + costAnalysis" where
  "generateAIInsights_costAnalysis isoMonth allItems =
     (let spent = js_reduce (\<lambda>sum item. sum + cost item) 0 allItems;
          totalVisits = length allItems;
          perVisit = js_div (Num spent) (Num (real totalVisits))
      in case monthlyData_loop isoMonth [] allItems of
           Inl e \<Rightarrow> Inl e
         | Inr monthlyData \<Rightarrow>
             Inr \<lparr>totalSpent = spent,
                  averagePerVisit = perVisit,
                  monthlyTrend = monthlyTrend_of monthlyData,
                  costEfficiency =
                    (if js_lt perVisit (Num 1000) then High
                     else if js_gt perVisit (Num 3000) then Low else Medium),
                  projectedAnnualCost = spent * 12\<rparr>)"

section \<open>Report lifecycle manager (\<^verbatim>\<open>useReports\<close>)\<close>

text \<open>
  The three mutations talk to two collaborators: the identity service and the
  persistence service.  A \<open>backend\<close> fixes what the collaborators answer during one
  call; the model returns the calls and notifications of the mutation in the order in
  which it makes them, and its return value.
\<close>

record backend =
  current_user :: "string option"
  insert_report :: "string + string"
  insert_items :: "string option"
  update_report :: "string option"
  delete_items :: "string option"
  delete_report :: "string option"
  select_reports :: "string + Report list"

datatype db_call =
    InsertReport string Report
  | InsertItems string "ReportItem list"
  | UpdateReport string string Report
  | DeleteItems string
  | DeleteReport string string
  | SelectReports

datatype toast_variant = NoVariant | Destructive

record toast =
  title :: string
  toast_description :: string
  variant :: toast_variant

datatype effect =
    GetUser
  | Persist db_call
  | Toast toast
  | ConsoleError string
  | SetReports "Report list"
  | SetLoading bool

fun is_persist :: "effect \<Rightarrow> bool" where
  "is_persist (Persist c) = True"
| "is_persist e = False"

definition fetchReports :: "backend \<Rightarrow> effect list" where
  "fetchReports b =
     [SetLoading True, Persist SelectReports] @
     (case select_reports b of
        Inl err \<Rightarrow>
          [ConsoleError ''Error fetching reports:'',
           Toast \<lparr>title = ''Error'',
                  toast_description = ''Failed to fetch reports. Please try again.'',
                  variant = Destructive\<rparr>]
      | Inr rs \<Rightarrow> [SetReports rs]) @
     [SetLoading False]"

text \<open>The \<^verbatim>\<open>catch\<close> block of a mutation.\<close>

definition caught :: "string \<Rightarrow> string \<Rightarrow> effect list" where
  "caught logged shown =
     [ConsoleError logged,
      Toast \<lparr>title = ''Error'', toast_description = shown, variant = Destructive\<rparr>]"

definition createReport :: "backend \<Rightarrow> Report \<Rightarrow> effect list \<times> string option" where
  "createReport b reportData =
     (case current_user b of
        None \<Rightarrow>
          ([GetUser,
            Toast \<lparr>title = ''Authentication Required'',
                   toast_description = ''Please sign in to create reports.'',
                   variant = Destructive\<rparr>], None)
      | Some uid \<Rightarrow>
          (let failed = caught ''Error creating report:''
                               ''Failed to create report. Please try again.''
           in case insert_report b of
                Inl err \<Rightarrow> ([GetUser, Persist (InsertReport uid reportData)] @ failed, None)
              | Inr rid \<Rightarrow>
                  (if 0 < length (items reportData)
                   then (case insert_items b of
                           Some err \<Rightarrow>
                             ([GetUser, Persist (InsertReport uid reportData),
                               Persist (InsertItems rid (items reportData))] @ failed, None)
                         | None \<Rightarrow>
                             ([GetUser, Persist (InsertReport uid reportData),
                               Persist (InsertItems rid (items reportData))] @
                              fetchReports b @
                              [Toast \<lparr>title = ''Report Created Successfully'',
                                      toast_description =
                                        ''Your field report has been saved to the database.'',
                                      variant = NoVariant\<rparr>], Some rid))
                   else ([GetUser, Persist (InsertReport uid reportData)] @
                         fetchReports b @
                         [Toast \<lparr>title = ''Report Created Successfully'',
                                 toast_description =
                                   ''Your field report has been saved to the database.'',
                                 variant = NoVariant\<rparr>], Some rid))))"


definition updateReport :: "backend \<Rightarrow> string \<Rightarrow> Report \<Rightarrow> effect list \<times> bool" where
  "updateReport b reportId reportData =
     (case current_user b of
        None \<Rightarrow>
          ([GetUser,
            Toast \<lparr>title = ''Authentication Required'',
                   toast_description = ''Please sign in to update reports.'',
                   variant = Destructive\<rparr>], False)
      | Some uid \<Rightarrow>
          (let failed = caught ''Error updating report:''
                               ''Failed to update report. Please try again.'';
               updated = [GetUser, Persist (UpdateReport reportId uid reportData)];
               deleted = updated @ [Persist (DeleteItems reportId)];
               done = [Toast \<lparr>title = ''Report Updated Successfully'',
                              toast_description = ''Your field report has been updated.'',
                              variant = NoVariant\<rparr>]
           in case update_report b of
                Some err \<Rightarrow> (updated @ failed, False)
              | None \<Rightarrow>
                  (case delete_items b of
                     Some err \<Rightarrow> (deleted @ failed, False)
                   | None \<Rightarrow>
                       (if 0 < length (items reportData)
                        then (case insert_items b of
                                Some err \<Rightarrow>
                                  (deleted @ [Persist (InsertItems reportId (items reportData))] @
                                   failed, False)
                              | None \<Rightarrow>
                                  (deleted @ [Persist (InsertItems reportId (items reportData))] @
                                   fetchReports b @ done, True))
                        else (deleted @ fetchReports b @ done, True)))))"

definition deleteReport :: "backend \<Rightarrow> string \<Rightarrow> effect list \<times> bool" where
  "deleteReport b reportId =
     (case current_user b of
        None \<Rightarrow>
          ([GetUser,
            Toast \<lparr>title = ''Authentication Required'',
                   toast_description = ''Please sign in to delete reports.'',
                   variant = Destructive\<rparr>], False)
      | Some uid \<Rightarrow>
          (case delete_report b of
             Some err \<Rightarrow>
               ([GetUser, Persist (DeleteReport reportId uid)] @
                caught ''Error deleting report:''
                       ''Failed to delete report. Please try again.'', False)
           | None \<Rightarrow>
               ([GetUser, Persist (DeleteReport reportId uid)] @ fetchReports b @
                [Toast \<lparr>title = ''Report Deleted'',
                        toast_description = ''The report has been successfully deleted.'',
                        variant = NoVariant\<rparr>], True)))"

section \<open>Export renderer: currency formatting (\<^verbatim>\<open>components/PDFReport.tsx\<close>)\<close>












section \<open>The properties in the words of the specification\<close>

text \<open>
  The cost trend of a location, from the costs of its visits in ascending order of date:
  the last three are the recent window, the first three the older one.
\<close>

definition spec_mean :: "real list \<Rightarrow> real" where
  "spec_mean cs = sum_list cs / real (length cs)"


text \<open>The keys of a list in the order in which each is first seen.\<close>

definition first_seen :: "'a list \<Rightarrow> 'a list" where
  "first_seen xs = rev (remdups (rev xs))"

text \<open>
  The monthly totals in the order in which the months are first seen, and the trend read
  off their last two entries.
\<close>

definition spec_monthly_totals :: "(TransportItem \<Rightarrow> string) \<Rightarrow> TransportItem list \<Rightarrow> real list" where
  "spec_monthly_totals month allItems =
     map (\<lambda>m. sum_list (map cost (filter (\<lambda>i. month i = m) allItems)))
       (first_seen (map month allItems))"

definition spec_monthlyTrend :: "real list \<Rightarrow> real" where
  "spec_monthlyTrend totals =
     (case rev totals of
        [] \<Rightarrow> 0
      | [only] \<Rightarrow> only
      | later # earlier # rest \<Rightarrow> later - earlier)"

text \<open>The costs of the uses of one transport mode, and of the visits of one location.\<close>

definition mode_costs :: "TransportItem list \<Rightarrow> string \<Rightarrow> real list" where
  "mode_costs allItems mode = map cost (filter (\<lambda>i. transportation i = mode) allItems)"

definition location_costs :: "TransportItem list \<Rightarrow> string \<Rightarrow> real list" where
  "location_costs allItems loc = map cost (filter (\<lambda>i. location i = loc) allItems)"

text \<open>
  Insertion into a map in one step: the entry of the key, created from \<open>init\<close> when the
  key is new, is changed by \<open>f\<close>.  Each loop body of the engine is such a step.
\<close>

definition upsert :: "'k \<Rightarrow> 'v \<Rightarrow> ('v \<Rightarrow> 'v) \<Rightarrow> ('k \<times> 'v) list \<Rightarrow> ('k \<times> 'v) list" where
  "upsert k init f m =
     (case map_of m k of None \<Rightarrow> m @ [(k, f init)] | Some v \<Rightarrow> map_set k (f v) m)"

definition grouped ::
  "('a \<Rightarrow> 'k) \<Rightarrow> 'v \<Rightarrow> ('a \<Rightarrow> 'v \<Rightarrow> 'v) \<Rightarrow> 'a list \<Rightarrow> ('k \<times> 'v) list" where
  "grouped key init f xs = fold (\<lambda>x m. upsert (key x) init (f x) m) xs []"

text \<open>What one item adds to the entry of its location, and to the entry of its mode.\<close>

definition visit_of :: "TransportItem \<Rightarrow> visit" where
  "visit_of item =
     \<lparr>v_cost = cost item, v_transportation = transportation item, v_date = ti_reportDate item\<rparr>"

definition add_visit :: "TransportItem \<Rightarrow> location_data \<Rightarrow> location_data" where
  "add_visit item loc =
     loc\<lparr>visits := visits loc @ [visit_of item], ld_totalCost := ld_totalCost loc + cost item\<rparr>"

definition add_usage :: "TransportItem \<Rightarrow> efficiency_data \<Rightarrow> efficiency_data" where
  "add_usage item transport =
     transport\<lparr>usage := usage transport + 1,
                ed_totalCost := ed_totalCost transport + cost item,
                ed_costs := ed_costs transport @ [cost item]\<rparr>"

text \<open>
  The neighbours of a report after the sort of its items, the key of a pair of
  neighbours, and what the pair adds to the entry of its key.
\<close>

definition neighbours :: "(string \<Rightarrow> string \<Rightarrow> int) \<Rightarrow> Report \<Rightarrow> (ReportItem \<times> ReportItem) list" where
  "neighbours localeCompare report =
     (let sorted = sortedItems_of localeCompare (items report) in zip sorted (tl sorted))"

definition all_neighbours ::
  "(string \<Rightarrow> string \<Rightarrow> int) \<Rightarrow> Report list \<Rightarrow> (ReportItem \<times> ReportItem) list" where
  "all_neighbours localeCompare reports = concat (map (neighbours localeCompare) reports)"

definition routeKey_of :: "ReportItem \<times> ReportItem \<Rightarrow> string" where
  "routeKey_of pair = location (fst pair) @ routeSep @ location (snd pair)"

definition add_route :: "ReportItem \<times> ReportItem \<Rightarrow> route_data \<Rightarrow> route_data" where
  "add_route pair route =
     route\<lparr>rd_frequency := rd_frequency route + 1,
           rd_totalCost := rd_totalCost route + cost (fst pair),
           rd_costs := rd_costs route @ [cost (fst pair)]\<rparr>"

text \<open>
  The means of the two windows of each location, as the engine has them when it
  classifies the trend of that location.
\<close>

definition window_means :: "(string \<Rightarrow> jsnum) \<Rightarrow> TransportItem list \<Rightarrow> (string \<times> jsnum \<times> jsnum) list" where
  "window_means getTime allItems =
     map (\<lambda>e. (fst e,
                window_avg (recentCosts_of (sortedVisits_of getTime (visits (snd e)))),
                window_avg (olderCosts_of (sortedVisits_of getTime (visits (snd e))))))
       (locationMap_of allItems)"

text \<open>
  The frequent routes in the words of the specification: the pairs of neighbours are
  grouped by their pair of locations, a group has its number of pairs as frequency and
  the mean cost of the first items of its pairs as average cost, and the ten most
  frequent groups are kept in descending order of frequency (groups of the same
  frequency in the order in which they are first seen).  A place name is free of the
  separator when it holds no character whose first byte is the first byte of the arrow.
\<close>

definition sep_free :: "string \<Rightarrow> bool" where
  "sep_free s = (CHR 0xE2 \<notin> set s)"

definition pair_locations :: "ReportItem \<times> ReportItem \<Rightarrow> string \<times> string" where
  "pair_locations p = (location (fst p), location (snd p))"

definition spec_route :: "(ReportItem \<times> ReportItem) list \<Rightarrow> string \<times> string \<Rightarrow> frequent_route" where
  "spec_route pairs ft =
     (let same = filter (\<lambda>p. pair_locations p = ft) pairs;
          n = length same;
          avg = sum_list (map (\<lambda>p. cost (fst p)) same) / real n
      in \<lparr>fr_from = Some (fst ft), fr_to = Some (snd ft), fr_frequency = n,
          fr_averageCost = Num avg, fr_efficiency = Num (max 0 (100 - avg / 50))\<rparr>)"

definition spec_frequentRoutes :: "(ReportItem \<times> ReportItem) list \<Rightarrow> frequent_route list" where
  "spec_frequentRoutes pairs =
     take 10 (sort_key (\<lambda>r. - real (fr_frequency r))
       (map (spec_route pairs) (first_seen (map pair_locations pairs))))"

section \<open>Example inputs\<close>

text \<open>
  What the platform answers on the dates of the examples: the milliseconds of a date at
  midnight UTC and the month of its ISO form.  A string that is not in the table stands
  for one that is no date.
\<close>

definition calendar :: "(string \<times> real \<times> string) list" where
  "calendar =
     [(''2025-01-01'', 1735689600000, ''2025-01''),
      (''2025-01-02'', 1735776000000, ''2025-01''),
      (''2025-01-03'', 1735862400000, ''2025-01''),
      (''2025-01-04'', 1735948800000, ''2025-01''),
      (''2025-01-05'', 1736035200000, ''2025-01''),
      (''2025-02-10'', 1739145600000, ''2025-02'')]"

definition getTime_ex :: "string \<Rightarrow> jsnum" where
  "getTime_ex s = (case map_of calendar s of None \<Rightarrow> NaN | Some e \<Rightarrow> Num (fst e))"

definition ms_ex :: "string \<Rightarrow> real" where
  "ms_ex s = (case map_of calendar s of None \<Rightarrow> 0 | Some e \<Rightarrow> fst e)"

definition isoMonth_ex :: "string \<Rightarrow> string option" where
  "isoMonth_ex s = map_option snd (map_of calendar s)"

text \<open>
  What \<^verbatim>\<open>localeCompare\<close> answers on the place names of the examples, which differ in
  their first capital letter: the order of the character codes.
\<close>

fun localeCompare_ex :: "string \<Rightarrow> string \<Rightarrow> int" where
  "localeCompare_ex [] [] = 0"
| "localeCompare_ex [] (y # ys) = - 1"
| "localeCompare_ex (x # xs) [] = 1"
| "localeCompare_ex (x # xs) (y # ys) =
     (if (of_char x :: nat) < of_char y then - 1
      else if (of_char y :: nat) < of_char x then 1
      else localeCompare_ex xs ys)"

definition item_ex :: "string \<Rightarrow> string \<Rightarrow> real \<Rightarrow> ReportItem" where
  "item_ex loc mode c =
     \<lparr>item_id = loc, location = loc, transportation = mode, cost = c\<rparr>"

definition report_ex :: "string \<Rightarrow> string \<Rightarrow> ReportItem list \<Rightarrow> Report" where
  "report_ex rid date its =
     \<lparr>report_id = rid, reportType = Verification, reportDate = date, description = [],
      items = its, totalCost = sum_list (map cost its), accountNumber = [],
      accountName = [], bankName = [], createdAt = date\<rparr>"

text \<open>One location visited five times, one visit a day, in the order of the dates.\<close>

definition five_visits :: "Report list" where
  "five_visits =
     [report_ex ''r1'' ''2025-01-01'' [item_ex ''Lekki'' ''Bus'' 100],
      report_ex ''r2'' ''2025-01-02'' [item_ex ''Lekki'' ''Bus'' 100],
      report_ex ''r3'' ''2025-01-03'' [item_ex ''Lekki'' ''Bus'' 100],
      report_ex ''r4'' ''2025-01-04'' [item_ex ''Lekki'' ''Bus'' 5000],
      report_ex ''r5'' ''2025-01-05'' [item_ex ''Lekki'' ''Bus'' 5000]]"

text \<open>A report of February that precedes a report of January in the collection.\<close>

definition feb_then_jan :: "Report list" where
  "feb_then_jan =
     [report_ex ''r1'' ''2025-02-10'' [item_ex ''Yaba'' ''Bus'' 500],
      report_ex ''r2'' ''2025-01-05'' [item_ex ''Ajah'' ''Keke'' 200]]"

text \<open>A report whose items were entered in the order Yaba, Ajah, Ikeja.\<close>

definition unsorted_report :: Report where
  "unsorted_report =
     report_ex ''r1'' ''2025-01-01''
       [item_ex ''Yaba'' ''Bus'' 500, item_ex ''Ajah'' ''Keke'' 300, item_ex ''Ikeja'' ''Bus'' 200]"



text \<open>One transport mode, used once at a cost of 10000.\<close>

definition one_costly_ride :: "Report list" where
  "one_costly_ride = [report_ex ''r1'' ''2025-01-01'' [item_ex ''Epe'' ''Charter'' 10000]]"

text \<open>One ride at a cost of 2500.\<close>

definition one_plain_ride :: "Report list" where
  "one_plain_ride = [report_ex ''r1'' ''2025-01-01'' [item_ex ''Epe'' ''Bus'' 2500]]"

text \<open>A session without a user; the answers of the persistence service do not matter.\<close>

definition signed_out :: backend where
  "signed_out =
     \<lparr>current_user = None, insert_report = Inr ''new-id'', insert_items = None,
      update_report = None, delete_items = None, delete_report = None,
      select_reports = Inr []\<rparr>"


section \<open>Arrays and maps: basic facts\<close>

lemma js_slice_last: "0 < n \<Longrightarrow> js_slice (- int n) None xs = drop (length xs - n) xs"
  by (auto simp: js_slice_def Let_def max_def nat_diff_distrib' intro: arg_cong[where f="\<lambda>k. drop k xs"])

lemma js_slice_first: "js_slice 0 (Some (int n)) xs = take n xs"
  by (simp add: js_slice_def Let_def min_def)

lemma js_slice_last3: "js_slice (- 3) None xs = drop (length xs - 3) xs"
  using js_slice_last[of 3 xs] by simp

lemma js_slice_last2: "js_slice (- 2) None xs = drop (length xs - 2) xs"
  using js_slice_last[of 2 xs] by simp

lemma js_slice_first3: "js_slice 0 (Some 3) xs = take 3 xs"
  using js_slice_first[of 3 xs] by simp

lemma js_slice_first10: "js_slice 0 (Some 10) xs = take 10 xs"
  using js_slice_first[of 10 xs] by simp


lemma js_reduce_add_key: "js_reduce (\<lambda>s x. s + f x) (a::real) xs = a + sum_list (map f xs)"
  unfolding js_reduce_def by (induction xs arbitrary: a) auto

lemma set_js_insort: "set (js_insort cmp x ys) = insert x (set ys)"
  by (induction ys) auto

lemma set_js_sort: "set (js_sort cmp xs) = set xs"
  unfolding js_sort_def by (induction xs) (auto simp: set_js_insort)

lemma length_js_insort: "length (js_insort cmp x ys) = Suc (length ys)"
  by (induction ys) auto

lemma length_js_sort: "length (js_sort cmp xs) = length xs"
  unfolding js_sort_def by (induction xs) (auto simp: length_js_insort)

lemma js_insort_key:
  assumes "k x = Num (t x)" "\<forall>y\<in>set ys. k y = Num (t y)"
  shows "js_insort (\<lambda>a b. js_sub (k a) (k b)) x ys = insort_key t x ys"
  using assms by (induction ys) (auto simp: js_gt_def)

lemma js_sort_key:
  assumes "\<forall>y\<in>set ys. k y = Num (t y)"
  shows "js_sort (\<lambda>a b. js_sub (k a) (k b)) ys = sort_key t ys"
  using assms unfolding js_sort_def sort_key_def
proof (induction ys)
  case Nil then show ?case by simp
next
  case (Cons y ys)
  have "set (foldr (insort_key t) ys []) = set ys" 
    using set_sort[of t ys] by (simp add: sort_key_def)
  with Cons show ?case by (simp add: js_insort_key)
qed

lemma insort_key_map: "insort_key f (g x) (map g ys) = map g (insort_key (\<lambda>a. f (g a)) x ys)"
  by (induction ys) auto

lemma sort_key_map: "sort_key f (map g xs) = map g (sort_key (\<lambda>a. f (g a)) xs)"
  unfolding sort_key_def by (induction xs) (auto simp: insort_key_map)

text \<open>
  For a comparator that subtracts keys, the sort is the stable sort by that key; for a
  comparator that is total and transitive, its result is in the order of the comparator.
\<close>

lemma js_insort_cmp:
  assumes "\<And>a b. cmp a b = Num (t a - t b)"
  shows "js_insort cmp x ys = insort_key t x ys"
  by (induction ys) (auto simp: assms js_gt_def)

lemma js_sort_cmp:
  assumes "\<And>a b. cmp a b = Num (t a - t b)"
  shows "js_sort cmp xs = sort_key t xs"
  unfolding js_sort_def sort_key_def
  by (induction xs) (simp_all add: js_insort_cmp[OF assms])

lemma sorted_wrt_js_insort:
  assumes total: "\<And>x y. \<not> js_gt (cmp x y) (Num 0) \<or> \<not> js_gt (cmp y x) (Num 0)"
    and trans: "\<And>x y z. \<not> js_gt (cmp x y) (Num 0) \<Longrightarrow> \<not> js_gt (cmp y z) (Num 0)
                  \<Longrightarrow> \<not> js_gt (cmp x z) (Num 0)"
    and "sorted_wrt (\<lambda>x y. \<not> js_gt (cmp x y) (Num 0)) ys"
  shows "sorted_wrt (\<lambda>x y. \<not> js_gt (cmp x y) (Num 0)) (js_insort cmp x ys)"
  using assms(3)
proof (induction ys)
  case Nil
  then show ?case by simp
next
  case (Cons y ys)
  show ?case
  proof (cases "js_gt (cmp x y) (Num 0)")
    case True
    then have "\<not> js_gt (cmp y x) (Num 0)" using total[of x y] by blast
    with True Cons show ?thesis by (auto simp: set_js_insort)
  next
    case False
    then have "\<forall>z\<in>set ys. \<not> js_gt (cmp x z) (Num 0)"
      using Cons.prems trans[of x y] by auto
    with False Cons.prems show ?thesis by simp
  qed
qed

lemma sorted_wrt_js_sort:
  assumes "\<And>x y. \<not> js_gt (cmp x y) (Num 0) \<or> \<not> js_gt (cmp y x) (Num 0)"
    and "\<And>x y z. \<not> js_gt (cmp x y) (Num 0) \<Longrightarrow> \<not> js_gt (cmp y z) (Num 0)
                  \<Longrightarrow> \<not> js_gt (cmp x z) (Num 0)"
  shows "sorted_wrt (\<lambda>x y. \<not> js_gt (cmp x y) (Num 0)) (js_sort cmp xs)"
  unfolding js_sort_def
  by (induction xs) (simp_all add: sorted_wrt_js_insort[OF assms])

lemma map_of_map_set: "map_of (map_set k v m) k' = (if k' = k then Some v else map_of m k')"
  by (induction m) auto

lemma map_set_new: "map_of m k = None \<Longrightarrow> map_set k v m = m @ [(k, v)]"
  by (induction m) (auto split: if_splits)

lemma map_set_twice: "map_set k v (map_set k w m) = map_set k v m"
  by (induction m) auto

lemma fst_map_set: "map_of m k = Some w \<Longrightarrow> map fst (map_set k v m) = map fst m"
  by (induction m) (auto split: if_splits)

lemma map_of_snoc: "map_of (m @ [(k, v)]) k' = (case map_of m k' of None \<Rightarrow> (if k' = k then Some v else None) | Some w \<Rightarrow> Some w)"
  by (induction m) auto

text \<open>
  The loop bodies of the engine test the key, create the entry, read it and change it;
  together the four steps are one insertion.
\<close>

lemma step_is_upsert:
  "(let m' = (if \<not> map_has m k then map_set k init m else m)
    in case map_get m' k of None \<Rightarrow> m' | Some v \<Rightarrow> map_set k (f v) m') = upsert k init f m"
proof (cases "map_of m k")
  case None
  have "map_set k (f init) (map_set k init m) = m @ [(k, f init)]"
    by (subst map_set_twice) (rule map_set_new[OF None])
  moreover have "map_of (map_set k init m) k = Some init"
    by (simp add: map_of_map_set)
  ultimately show ?thesis
    using None by (simp add: map_has_def map_get_def upsert_def)
next
  case (Some v)
  then show ?thesis
    by (simp add: map_has_def map_get_def upsert_def)
qed

lemma map_of_upsert:
  "map_of (upsert k init f m) k' =
     (if k' = k then Some (f (case map_of m k of None \<Rightarrow> init | Some v \<Rightarrow> v)) else map_of m k')"
  by (auto simp: upsert_def map_of_map_set map_add_def split: option.splits)

lemma fst_upsert:
  "map fst (upsert k init f m) = (if k \<in> set (map fst m) then map fst m else map fst m @ [k])"
proof (cases "map_of m k")
  case None
  then have "k \<notin> fst ` set m" by (simp add: map_of_eq_None_iff)
  with None show ?thesis by (simp add: upsert_def)
next
  case (Some v)
  then have "k \<in> fst ` set m" by (metis map_of_eq_None_iff option.distinct(1))
  with Some show ?thesis by (simp add: upsert_def fst_map_set)
qed

lemma first_seen_snoc:
  "first_seen (xs @ [x]) = (if x \<in> set xs then first_seen xs else first_seen xs @ [x])"
  by (simp add: first_seen_def)

lemma set_first_seen: "set (first_seen xs) = set xs"
  by (simp add: first_seen_def)

lemma distinct_first_seen: "distinct (first_seen xs)"
  by (simp add: first_seen_def)

lemma first_seen_single:
  assumes "xs \<noteq> []" "\<forall>x\<in>set xs. x = a"
  shows "first_seen xs = [a]"
proof -
  obtain x where "x \<in> set xs" using assms(1) by (cases xs) auto
  then have s: "set (first_seen xs) = {a}" using assms(2) by (fastforce simp: set_first_seen)
  have d: "distinct (first_seen xs)" by (rule distinct_first_seen)
  show ?thesis
  proof (cases "first_seen xs")
    case Nil
    with s show ?thesis by simp
  next
    case (Cons y ys)
    with s d have "y = a" "set ys \<subseteq> {a}" "y \<notin> set ys" by auto
    then have "ys = []" by (cases ys) auto
    with Cons \<open>y = a\<close> show ?thesis by simp
  qed
qed

lemma first_seen_map_inj:
  "inj_on g (set xs) \<Longrightarrow> first_seen (map g xs) = map g (first_seen xs)"
proof (induction xs rule: rev_induct)
  case Nil
  then show ?case by (simp add: first_seen_def)
next
  case (snoc x xs)
  then have "inj_on g (set xs)" by (simp add: inj_on_def)
  moreover have "g x \<in> g ` set xs \<longleftrightarrow> x \<in> set xs"
    using snoc.prems by (auto simp: inj_on_def)
  ultimately show ?case using snoc.IH by (simp add: first_seen_snoc)
qed

lemma grouped_snoc:
  "grouped key init f (xs @ [x]) = upsert (key x) init (f x) (grouped key init f xs)"
  by (simp add: grouped_def)

lemma fst_grouped: "map fst (grouped key init f xs) = first_seen (map key xs)"
proof (induction xs rule: rev_induct)
  case Nil
  then show ?case by (simp add: grouped_def first_seen_def)
next
  case (snoc x xs)
  then show ?case
    by (simp add: grouped_snoc fst_upsert first_seen_snoc set_first_seen)
qed

lemma distinct_grouped: "distinct (map fst (grouped key init f xs))"
  by (simp add: fst_grouped distinct_first_seen)

lemma map_of_grouped:
  "map_of (grouped key init f xs) k =
     (if k \<in> key ` set xs then Some (fold f (filter (\<lambda>x. key x = k) xs) init) else None)"
proof (induction xs rule: rev_induct)
  case Nil
  then show ?case by (simp add: grouped_def)
next
  case (snoc x xs)
  have "k \<notin> key ` set xs \<Longrightarrow> filter (\<lambda>x. key x = k) xs = []" for k
    by (auto simp: filter_empty_conv)
  with snoc show ?case
    by (auto simp: grouped_snoc map_of_upsert)
qed

lemma grouped_entry:
  assumes "(k, v) \<in> set (grouped key init f xs)"
  shows "k \<in> key ` set xs \<and> v = fold f (filter (\<lambda>x. key x = k) xs) init"
proof -
  have "map_of (grouped key init f xs) k = Some v"
    by (rule map_of_is_SomeI[OF distinct_grouped assms])
  then show ?thesis
    by (auto simp: map_of_grouped split: if_splits)
qed

text \<open>
  A grouping holds one entry for each key, in the order in which the keys are first
  seen; the entry of a key is built from the elements of that key, in their order.
\<close>

lemma grouped_values:
  "grouped key init f xs =
     map (\<lambda>k. (k, fold f (filter (\<lambda>x. key x = k) xs) init)) (first_seen (map key xs))"
proof (rule nth_equalityI)
  show "length (grouped key init f xs) =
        length (map (\<lambda>k. (k, fold f (filter (\<lambda>x. key x = k) xs) init)) (first_seen (map key xs)))"
    using arg_cong[OF fst_grouped[of key init f xs], of length] by simp
next
  fix i assume i: "i < length (grouped key init f xs)"
  let ?g = "grouped key init f xs"
  have "?g ! i \<in> set ?g" using i by simp
  then have "snd (?g ! i) = fold f (filter (\<lambda>x. key x = fst (?g ! i)) xs) init"
    using grouped_entry[of "fst (?g ! i)" "snd (?g ! i)" key init f xs] by simp
  moreover have "fst (?g ! i) = first_seen (map key xs) ! i"
    using i fst_grouped[of key init f xs] by (metis nth_map)
  moreover have "i < length (first_seen (map key xs))"
    using i arg_cong[OF fst_grouped[of key init f xs], of length] by simp
  ultimately show "?g ! i = map (\<lambda>k. (k, fold f (filter (\<lambda>x. key x = k) xs) init)) (first_seen (map key xs)) ! i"
    by (simp add: prod_eq_iff)
qed


section \<open>The maps of the engine as groupings\<close>

subsection \<open>The location map\<close>

lemma locationMap_step_upsert:
  "locationMap_step m item =
     upsert (location item) \<lparr>visits = [], ld_totalCost = 0\<rparr> (add_visit item) m"
  unfolding locationMap_step_def
  using step_is_upsert[of m "location item" "\<lparr>visits = [], ld_totalCost = 0\<rparr>" "add_visit item"]
  unfolding add_visit_def visit_of_def .

lemma locationMap_of_grouped:
  "locationMap_of allItems =
     grouped location \<lparr>visits = [], ld_totalCost = 0\<rparr> add_visit allItems"
  by (simp add: locationMap_of_def grouped_def locationMap_step_upsert)

lemma fold_add_visit:
  "fold add_visit ys d =
     d\<lparr>visits := visits d @ map visit_of ys,
       ld_totalCost := ld_totalCost d + sum_list (map cost ys)\<rparr>"
  by (induction ys arbitrary: d) (simp_all add: add_visit_def)

lemma locationMap_entry:
  assumes "(k, d) \<in> set (locationMap_of allItems)"
  shows "k \<in> location ` set allItems"
    and "visits d = map visit_of (filter (\<lambda>i. location i = k) allItems)"
    and "ld_totalCost d = sum_list (map cost (filter (\<lambda>i. location i = k) allItems))"
  using grouped_entry[OF assms[unfolded locationMap_of_grouped]]
  by (simp_all add: fold_add_visit)

lemma filter_key_nonempty: "k \<in> key ` set xs \<Longrightarrow> filter (\<lambda>x. key x = k) xs \<noteq> []"
  by (auto simp: filter_empty_conv)

text \<open>The location map of items that share one location.\<close>

lemma locationMap_single:
  assumes "allItems \<noteq> []" "\<forall>i\<in>set allItems. location i = loc"
  shows "locationMap_of allItems =
           [(loc, \<lparr>visits = map visit_of allItems, ld_totalCost = sum_list (map cost allItems)\<rparr>)]"
proof -
  have "first_seen (map location allItems) = [loc]"
    using assms by (intro first_seen_single) auto
  moreover have "filter (\<lambda>i. location i = loc) allItems = allItems"
    using assms(2) by (simp add: filter_id_conv)
  ultimately show ?thesis
    by (simp add: locationMap_of_grouped grouped_values fold_add_visit)
qed

text \<open>The pattern output has one entry for each location of the items.\<close>

lemma patterns_locations:
  "tp_location ` set (transportPatterns getTime allItems) = location ` set allItems"
proof -
  have "tp_location ` set (transportPatterns getTime allItems) = fst ` set (locationMap_of allItems)"
    by (force simp: transportPatterns_def set_js_sort pattern_of_def Let_def image_iff)
  also have "\<dots> = set (map fst (locationMap_of allItems))" by simp
  also have "\<dots> = location ` set allItems"
    by (simp only: locationMap_of_grouped fst_grouped set_first_seen set_map)
  finally show ?thesis .
qed

subsection \<open>The cost trend\<close>



lemma sortedVisits_of_sort_key:
  assumes "\<forall>v\<in>set vs. getTime (v_date v) = Num (t (v_date v))"
  shows "sortedVisits_of getTime vs = sort_key (\<lambda>v. t (v_date v)) vs"
  unfolding sortedVisits_of_def
  using js_sort_key[of vs "\<lambda>v. getTime (v_date v)" "\<lambda>v. t (v_date v)"] assms by simp

lemma sortedVisits_of_items:
  assumes "\<forall>i\<in>set its. getTime (ti_reportDate i) = Num (t (ti_reportDate i))"
  shows "map v_cost (sortedVisits_of getTime (map visit_of its)) =
           map cost (sort_key (\<lambda>i. t (ti_reportDate i)) its)"
proof -
  have "\<forall>v\<in>set (map visit_of its). getTime (v_date v) = Num (t (v_date v))"
    using assms by (auto simp: visit_of_def)
  then have "sortedVisits_of getTime (map visit_of its) = sort_key (\<lambda>v. t (v_date v)) (map visit_of its)"
    by (rule sortedVisits_of_sort_key)
  also have "\<dots> = map visit_of (sort_key (\<lambda>i. t (ti_reportDate i)) its)"
    by (simp add: sort_key_map visit_of_def)
  finally show ?thesis by (simp add: visit_of_def comp_def)
qed

subsection \<open>The route map\<close>

lemma routeMap_step_upsert:
  "routeMap_step m a b =
     upsert (routeKey_of (a, b)) \<lparr>rd_frequency = 0, rd_totalCost = 0, rd_costs = []\<rparr>
       (add_route (a, b)) m"
  unfolding routeMap_step_def
  using step_is_upsert[of m "routeKey_of (a, b)"
      "\<lparr>rd_frequency = 0, rd_totalCost = 0, rd_costs = []\<rparr>" "add_route (a, b)"]
  unfolding add_route_def routeKey_of_def fst_conv snd_conv Let_def .

lemma routeMap_loop_fold:
  "routeMap_loop m s =
     fold (\<lambda>p. upsert (routeKey_of p) \<lparr>rd_frequency = 0, rd_totalCost = 0, rd_costs = []\<rparr>
        (add_route p)) (zip s (tl s)) m"
  by (induction m s rule: routeMap_loop.induct) (simp_all add: routeMap_step_upsert)

lemma routeMap_of_fold:
  "fold (\<lambda>report st. routeMap_report lc st report) reports (m, seen) =
     (fold (\<lambda>p. upsert (routeKey_of p) \<lparr>rd_frequency = 0, rd_totalCost = 0, rd_costs = []\<rparr>
        (add_route p)) (all_neighbours lc reports) m,
      seen @ map (\<lambda>r. r\<lparr>items := sortedItems_of lc (items r)\<rparr>) reports)"
  by (induction reports arbitrary: m seen)
     (simp_all add: all_neighbours_def routeMap_report_def routeMap_loop_fold neighbours_def Let_def)

lemma routeMap_of_grouped:
  "routeMap_of lc reports =
     (grouped routeKey_of \<lparr>rd_frequency = 0, rd_totalCost = 0, rd_costs = []\<rparr> add_route
        (all_neighbours lc reports),
      map (\<lambda>r. r\<lparr>items := sortedItems_of lc (items r)\<rparr>) reports)"
  by (simp add: routeMap_of_def routeMap_of_fold grouped_def)

lemma fold_add_route:
  "fold add_route ps d =
     d\<lparr>rd_frequency := rd_frequency d + length ps,
       rd_totalCost := rd_totalCost d + sum_list (map (\<lambda>p. cost (fst p)) ps),
       rd_costs := rd_costs d @ map (\<lambda>p. cost (fst p)) ps\<rparr>"
  by (induction ps arbitrary: d) (simp_all add: add_route_def)

lemma routeMap_entry:
  assumes "(k, d) \<in> set (fst (routeMap_of lc reports))"
  shows "k \<in> routeKey_of ` set (all_neighbours lc reports)"
    and "rd_frequency d = length (filter (\<lambda>p. routeKey_of p = k) (all_neighbours lc reports))"
    and "rd_totalCost d =
           sum_list (map (\<lambda>p. cost (fst p)) (filter (\<lambda>p. routeKey_of p = k) (all_neighbours lc reports)))"
  using grouped_entry[OF assms[unfolded routeMap_of_grouped fst_conv]]
  by (simp_all add: fold_add_route)

lemma mset_js_insort: "mset (js_insort cmp x ys) = add_mset x (mset ys)"
  by (induction ys) auto

lemma mset_js_sort: "mset (js_sort cmp xs) = mset xs"
  unfolding js_sort_def by (induction xs) (auto simp: mset_js_insort)

text \<open>The neighbours of a report are items of that report.\<close>

lemma neighbours_items:
  assumes "p \<in> set (all_neighbours lc reports)"
  shows "\<exists>r\<in>set reports. fst p \<in> set (items r) \<and> snd p \<in> set (items r)"
proof -
  from assms obtain r where r: "r \<in> set reports" "p \<in> set (neighbours lc r)"
    by (auto simp: all_neighbours_def)
  let ?s = "sortedItems_of lc (items r)"
  have "p \<in> set (zip ?s (tl ?s))" using r(2) by (simp add: neighbours_def Let_def)
  then have "fst p \<in> set ?s" "snd p \<in> set (tl ?s)"
    by (auto dest: set_zip_leftD set_zip_rightD simp: prod_eq_iff[symmetric] intro: set_zip_leftD[of "fst p" "snd p"] set_zip_rightD[of "fst p" "snd p"])
  moreover have "set (tl ?s) \<subseteq> set ?s" by (cases ?s) auto
  moreover have "set ?s = set (items r)" by (simp add: sortedItems_of_def set_js_sort)
  ultimately show ?thesis using r(1) by blast
qed

text \<open>
  For a collation that is total and transitive, the items of a report are left in the
  order of the collation of their locations.
\<close>

lemma sortedItems_sorted:
  assumes "\<And>a b. lc a b \<le> 0 \<or> lc b a \<le> 0"
    and "\<And>a b c. lc a b \<le> 0 \<Longrightarrow> lc b c \<le> 0 \<Longrightarrow> lc a c \<le> 0"
  shows "sorted_wrt (\<lambda>x y. lc (location x) (location y) \<le> 0) (sortedItems_of lc its)"
proof -
  let ?cmp = "\<lambda>a b :: ReportItem. Num (real_of_int (lc (location a) (location b)))"
  have "sorted_wrt (\<lambda>x y. \<not> js_gt (?cmp x y) (Num 0)) (js_sort ?cmp its)"
  proof (rule sorted_wrt_js_sort)
    show "\<not> js_gt (?cmp x y) (Num 0) \<or> \<not> js_gt (?cmp y x) (Num 0)" for x y
      using assms(1)[of "location x" "location y"] by (auto simp: js_gt_def)
    show "\<not> js_gt (?cmp x y) (Num 0) \<Longrightarrow> \<not> js_gt (?cmp y z) (Num 0) \<Longrightarrow> \<not> js_gt (?cmp x z) (Num 0)" for x y z
      using assms(2)[of "location x" "location y" "location z"] by (auto simp: js_gt_def not_less)
  qed
  then show ?thesis by (simp add: sortedItems_of_def js_gt_def not_less)
qed

text \<open>The frequent routes are the first ten routes in descending order of frequency.\<close>

lemma frequentRoutes_of_sort:
  "frequentRoutes_of m = take 10 (sort_key (\<lambda>r. - real (fr_frequency r)) (map route_of m))"
  unfolding frequentRoutes_of_def js_slice_first10
  by (subst js_sort_cmp[where t = "\<lambda>r. - real (fr_frequency r)"]) simp_all

subsection \<open>Route keys of place names that are free of the separator\<close>

lemma routeSep_unfold: "routeSep = CHR '' '' # CHR 0xE2 # [CHR 0x86, CHR 0x92, CHR '' '']"
  by (simp add: routeSep_def)

lemma no_sep_prefix:
  assumes "CHR 0xE2 \<notin> set (take 2 s)"
  shows "take (length routeSep) s \<noteq> routeSep"
proof
  assume "take (length routeSep) s = routeSep"
  then have "s = routeSep @ drop (length routeSep) s"
    by (metis append_take_drop_id)
  then obtain r where "s = CHR '' '' # CHR 0xE2 # r"
    by (simp add: routeSep_def)
  with assms show False by simp
qed

lemma js_split_from_sep_free:
  assumes "sep_free b"
  shows "js_split_from routeSep acc b = [rev acc @ b]"
  using assms
proof (induction b arbitrary: acc)
  case Nil
  then show ?case by simp
next
  case (Cons c cs)
  have "CHR 0xE2 \<notin> set (take 2 (c # cs))"
    using Cons.prems by (auto simp: sep_free_def dest: in_set_takeD)
  then have "take (length routeSep) (c # cs) \<noteq> routeSep" by (rule no_sep_prefix)
  moreover have "sep_free cs" using Cons.prems by (simp add: sep_free_def)
  ultimately show ?case using Cons.IH[of "c # acc"] by simp
qed

lemma js_split_from_key:
  assumes "sep_free a" "sep_free b"
  shows "js_split_from routeSep acc (a @ routeSep @ b) = [rev acc @ a, b]"
  using assms(1)
proof (induction a arbitrary: acc)
  case Nil
  have "routeSep @ b = CHR '' '' # (CHR 0xE2 # [CHR 0x86, CHR 0x92, CHR '' ''] @ b)"
    by (simp add: routeSep_def)
  moreover have "take (length routeSep) (routeSep @ b) = routeSep" by simp
  moreover have "drop (length routeSep) (routeSep @ b) = b" by simp
  ultimately show ?case
    using js_split_from_sep_free[OF assms(2), of "[]"]
    by (metis append_Nil append_Nil2 js_split_from.simps(2) list.distinct(1) rev.simps(1) routeSep_unfold)
next
  case (Cons c cs)
  have "CHR 0xE2 \<notin> set (take 2 (c # cs @ routeSep @ b))"
    using Cons.prems by (cases cs) (auto simp: sep_free_def routeSep_def)
  then have "take (length routeSep) (c # cs @ routeSep @ b) \<noteq> routeSep" by (rule no_sep_prefix)
  moreover have "sep_free cs" using Cons.prems by (simp add: sep_free_def)
  ultimately show ?case using Cons.IH[of "c # acc"] by simp
qed

lemma js_split_key:
  "sep_free a \<Longrightarrow> sep_free b \<Longrightarrow> js_split routeSep (a @ routeSep @ b) = [a, b]"
  by (simp add: js_split_def js_split_from_key)

lemma takeWhile_key:
  "sep_free x \<Longrightarrow> takeWhile (\<lambda>c. c \<noteq> CHR 0xE2) (x @ routeSep @ y) = x @ [CHR '' '']"
  by (induction x) (auto simp: sep_free_def routeSep_def)

lemma key_inj:
  assumes "sep_free a" "sep_free a'" "a @ routeSep @ b = a' @ routeSep @ b'"
  shows "a = a' \<and> b = b'"
proof -
  have "a @ [CHR '' ''] = a' @ [CHR '' '']"
    using takeWhile_key[OF assms(1), of b] takeWhile_key[OF assms(2), of b'] assms(3) by simp
  then have "a = a'" by simp
  with assms(3) show ?thesis by simp
qed

lemma routeKey_pair: "routeKey_of p = fst (pair_locations p) @ routeSep @ snd (pair_locations p)"
  by (simp add: routeKey_of_def pair_locations_def)

subsection \<open>The efficiency map\<close>

lemma efficiencyMap_step_upsert:
  "efficiencyMap_step m item =
     upsert (transportation item) \<lparr>usage = 0, ed_totalCost = 0, ed_costs = []\<rparr> (add_usage item) m"
  unfolding efficiencyMap_step_def
  using step_is_upsert[of m "transportation item" "\<lparr>usage = 0, ed_totalCost = 0, ed_costs = []\<rparr>"
      "add_usage item"]
  unfolding add_usage_def .

lemma efficiencyMap_of_grouped:
  "efficiencyMap_of allItems =
     grouped transportation \<lparr>usage = 0, ed_totalCost = 0, ed_costs = []\<rparr> add_usage allItems"
  by (simp add: efficiencyMap_of_def grouped_def efficiencyMap_step_upsert)

lemma fold_add_usage:
  "fold add_usage ys d =
     d\<lparr>usage := usage d + length ys,
       ed_totalCost := ed_totalCost d + sum_list (map cost ys),
       ed_costs := ed_costs d @ map cost ys\<rparr>"
  by (induction ys arbitrary: d) (simp_all add: add_usage_def)

lemma efficiencyMap_entry:
  assumes "(k, d) \<in> set (efficiencyMap_of allItems)"
  shows "k \<in> transportation ` set allItems"
    and "usage d = length (mode_costs allItems k)"
    and "ed_totalCost d = sum_list (mode_costs allItems k)"
  using grouped_entry[OF assms[unfolded efficiencyMap_of_grouped]]
  by (simp_all add: fold_add_usage mode_costs_def)

subsection \<open>The efficiency scores\<close>

lemma clamp_value:
  assumes "0 < n" "0 < d"
  shows "js_max (Num 0) (js_sub (Num 100) (js_div (js_div (Num tot) (Num (real n))) (Num d))) =
         Num (max 0 (100 - tot / real n / d))"
  using assms by (simp add: max_def)

lemma pattern_efficiency:
  assumes "(k, d) \<in> set (locationMap_of allItems)"
  shows "js_nonneg (tp_efficiency (pattern_of getTime (k, d)))"
proof -
  have "0 < length (visits d)"
    using locationMap_entry(1,2)[OF assms] by (simp add: filter_key_nonempty)
  then show ?thesis
    by (simp add: pattern_of_def Let_def clamp_value)
qed

lemma pattern_efficiency_value:
  assumes "(k, d) \<in> set (locationMap_of allItems)"
  shows "tp_efficiency (pattern_of getTime (k, d)) =
           Num (max 0 (100 - spec_mean (location_costs allItems k) / 50))"
proof -
  have "0 < length (visits d)"
    using locationMap_entry(1,2)[OF assms] by (simp add: filter_key_nonempty)
  then show ?thesis
    using locationMap_entry(2,3)[OF assms]
    by (simp add: pattern_of_def Let_def clamp_value spec_mean_def location_costs_def)
qed

lemma route_efficiency:
  assumes "(k, d) \<in> set (fst (routeMap_of lc reports))"
  shows "js_nonneg (fr_efficiency (route_of (k, d)))"
proof -
  have "0 < rd_frequency d"
    using routeMap_entry(1,2)[OF assms] by (simp add: filter_key_nonempty)
  then show ?thesis
    by (simp add: route_of_def Let_def clamp_value)
qed

lemma mode_efficiency_value:
  assumes "(k, d) \<in> set (efficiencyMap_of allItems)"
  shows "te_efficiency (efficiency_of (k, d)) =
           Num (max 0 (100 - spec_mean (mode_costs allItems k) / 100))"
proof -
  have "0 < length (mode_costs allItems k)"
    using efficiencyMap_entry(1)[OF assms] by (simp add: mode_costs_def filter_key_nonempty)
  then show ?thesis
    using efficiencyMap_entry(2,3)[OF assms]
    by (simp add: efficiency_of_def Let_def clamp_value spec_mean_def)
qed

subsection \<open>The frequent routes as groups of pairs\<close>

text \<open>
  When no place name of the reports holds the separator, the route key of a pair of
  neighbours determines the pair of their locations, the split of the key gives that
  pair back, and the frequent routes are the ones that the specification describes.
\<close>

lemma route_of_spec:
  assumes free: "\<forall>p\<in>set pairs. sep_free (location (fst p)) \<and> sep_free (location (snd p))"
    and ft: "ft \<in> pair_locations ` set pairs"
  shows "route_of (fst ft @ routeSep @ snd ft,
           fold add_route (filter (\<lambda>p. routeKey_of p = fst ft @ routeSep @ snd ft) pairs)
             \<lparr>rd_frequency = 0, rd_totalCost = 0, rd_costs = []\<rparr>) = spec_route pairs ft"
proof -
  from ft obtain q where q: "q \<in> set pairs" "ft = pair_locations q" by auto
  have sf: "sep_free (fst ft)" "sep_free (snd ft)"
    using free q by (simp_all add: pair_locations_def)
  have same: "filter (\<lambda>p. routeKey_of p = fst ft @ routeSep @ snd ft) pairs =
              filter (\<lambda>p. pair_locations p = ft) pairs"
  proof (rule filter_cong[OF refl])
    fix p assume p: "p \<in> set pairs"
    have "sep_free (fst (pair_locations p))" using free p by (simp add: pair_locations_def)
    then show "(routeKey_of p = fst ft @ routeSep @ snd ft) = (pair_locations p = ft)"
      using key_inj[OF _ sf(1), of "fst (pair_locations p)" "snd (pair_locations p)" "snd ft"]
      by (auto simp: routeKey_pair prod_eq_iff)
  qed
  have ne: "filter (\<lambda>p. pair_locations p = ft) pairs \<noteq> []"
    using q by (auto simp: filter_empty_conv)
  then have pos: "0 < length (filter (\<lambda>p. pair_locations p = ft) pairs)" by simp
  show ?thesis
    unfolding same using ne
    by (simp add: route_of_def spec_route_def Let_def js_split_key[OF sf] fold_add_route max_def)
qed

theorem frequentRoutes_by_pair:
  assumes "\<forall>r\<in>set reports. \<forall>i\<in>set (items r). sep_free (location i)"
  shows "fst (routeAnalysis lc reports) = spec_frequentRoutes (all_neighbours lc reports)"
proof -
  let ?N = "all_neighbours lc reports"
  let ?key = "\<lambda>ft. fst ft @ routeSep @ snd ft"
  let ?init = "\<lparr>rd_frequency = 0, rd_totalCost = 0, rd_costs = []\<rparr>"
  have free: "\<forall>p\<in>set ?N. sep_free (location (fst p)) \<and> sep_free (location (snd p))"
    using assms neighbours_items[of _ lc reports] by blast
  have inj: "inj_on ?key (set (map pair_locations ?N))"
  proof (rule inj_onI)
    fix x y assume x: "x \<in> set (map pair_locations ?N)" and y: "y \<in> set (map pair_locations ?N)"
      and e: "fst x @ routeSep @ snd x = fst y @ routeSep @ snd y"
    have "sep_free (fst x)" "sep_free (fst y)"
      using x y free by (auto simp: pair_locations_def)
    then show "x = y" using key_inj[OF _ _ e] by (simp add: prod_eq_iff)
  qed
  have keys: "map routeKey_of ?N = map ?key (map pair_locations ?N)"
    by (simp add: routeKey_pair)
  have fs: "first_seen (map routeKey_of ?N) = map ?key (first_seen (map pair_locations ?N))"
    unfolding keys by (rule first_seen_map_inj[OF inj])
  have "map route_of (grouped routeKey_of ?init add_route ?N) =
        map (\<lambda>ft. route_of (?key ft, fold add_route (filter (\<lambda>p. routeKey_of p = ?key ft) ?N) ?init))
          (first_seen (map pair_locations ?N))"
    by (simp add: grouped_values fs comp_def)
  also have "\<dots> = map (spec_route ?N) (first_seen (map pair_locations ?N))"
  proof (rule map_cong[OF refl])
    fix ft assume "ft \<in> set (first_seen (map pair_locations ?N))"
    then have "ft \<in> pair_locations ` set ?N" by (simp add: set_first_seen)
    then show "route_of (?key ft, fold add_route (filter (\<lambda>p. routeKey_of p = ?key ft) ?N) ?init) =
               spec_route ?N ft"
      using route_of_spec[OF free] by blast
  qed
  finally show ?thesis
    by (simp add: routeAnalysis_def Let_def routeMap_of_grouped frequentRoutes_of_sort
        spec_frequentRoutes_def)
qed

lemma spec_frequentRoutes_descending:
  "sorted (map (\<lambda>r. - real (fr_frequency r)) (spec_frequentRoutes pairs)) \<and>
   length (spec_frequentRoutes pairs) \<le> 10"
  by (simp add: spec_frequentRoutes_def take_map[symmetric] sorted_wrt_take)

subsection \<open>The monthly totals\<close>

lemma monthly_step_upsert:
  "map_set month (or_zero (map_get m month) + c) m = upsert month 0 (\<lambda>v. v + c) m"
  by (cases "map_of m month") (simp_all add: or_zero_def map_get_def upsert_def map_set_new)

lemma monthlyData_loop_fold:
  assumes "\<forall>i\<in>set its. isoMonth (ti_reportDate i) = Some (month i)"
  shows "monthlyData_loop isoMonth m its =
           Inr (fold (\<lambda>i. upsert (month i) 0 (\<lambda>v. v + cost i)) its m)"
  using assms by (induction its arbitrary: m) (simp_all add: monthly_step_upsert)

lemma fold_add_cost: "fold (\<lambda>i v. v + cost i) ys (a::real) = a + sum_list (map cost ys)"
  by (induction ys arbitrary: a) simp_all

lemma monthlyData_totals:
  assumes "\<forall>i\<in>set its. isoMonth (ti_reportDate i) = Some (month i)"
  shows "\<exists>md. monthlyData_loop isoMonth [] its = Inr md \<and>
              map snd md = spec_monthly_totals month its"
proof -
  have "monthlyData_loop isoMonth [] its = Inr (grouped month 0 (\<lambda>i v. v + cost i) its)"
    using monthlyData_loop_fold[OF assms, of "[]"] by (simp add: grouped_def)
  moreover have "map snd (grouped month 0 (\<lambda>i v. v + cost i) its) = spec_monthly_totals month its"
    by (simp add: grouped_values spec_monthly_totals_def fold_add_cost comp_def)
  ultimately show ?thesis by blast
qed

lemma monthlyTrend_of_spec: "monthlyTrend_of md = spec_monthlyTrend (map snd md)"
proof -
  let ?ts = "map snd md"
  have "js_reduce (\<lambda>a b. b - a) 0 (drop (length ?ts - 2) ?ts) = spec_monthlyTrend ?ts"
  proof (cases "rev ?ts")
    case Nil
    then show ?thesis by (simp add: js_reduce_def spec_monthlyTrend_def)
  next
    case (Cons later r)
    show ?thesis
    proof (cases r)
      case Nil
      with Cons have "?ts = [later]" by (metis rev_singleton_conv)
      then show ?thesis by (simp add: js_reduce_def spec_monthlyTrend_def)
    next
      case (Cons earlier rest)
      with \<open>rev ?ts = later # r\<close> have "?ts = rev rest @ [earlier, later]"
        by (metis rev.simps rev_rev_ident append_Cons append_Nil append_assoc)
      then show ?thesis by (simp add: js_reduce_def spec_monthlyTrend_def)
    qed
  qed
  then show ?thesis by (simp add: monthlyTrend_of_def js_slice_last2)
qed

subsection \<open>The sanitizer\<close>


subsection \<open>The collation of the examples\<close>

lemma localeCompare_ex_total: "localeCompare_ex a b \<le> 0 \<or> localeCompare_ex b a \<le> 0"
  by (induction a b rule: localeCompare_ex.induct) auto

lemma localeCompare_ex_le:
  "(localeCompare_ex (x # xs) (y # ys) \<le> 0) =
     ((of_char x :: nat) < of_char y \<or> (of_char x :: nat) = of_char y \<and> localeCompare_ex xs ys \<le> 0)"
  by auto

lemma localeCompare_ex_trans:
  "localeCompare_ex a b \<le> 0 \<Longrightarrow> localeCompare_ex b c \<le> 0 \<Longrightarrow> localeCompare_ex a c \<le> 0"
proof (induction a b arbitrary: c rule: localeCompare_ex.induct)
  case 1
  then show ?case by simp
next
  case (2 y ys)
  then show ?case by (cases c) simp_all
next
  case (3 x xs)
  then show ?case by simp
next
  case (4 x xs y ys)
  show ?case
  proof (cases c)
    case Nil
    with "4.prems"(2) show ?thesis by simp
  next
    case (Cons z zs)
    have xy: "(of_char x :: nat) < of_char y \<or>
              (of_char x :: nat) = of_char y \<and> localeCompare_ex xs ys \<le> 0"
      using "4.prems"(1) by (simp only: localeCompare_ex_le)
    have yz: "(of_char y :: nat) < of_char z \<or>
              (of_char y :: nat) = of_char z \<and> localeCompare_ex ys zs \<le> 0"
      using "4.prems"(2) unfolding Cons by (simp only: localeCompare_ex_le)
    show ?thesis
    proof (cases "(of_char x :: nat) < of_char z")
      case True
      then show ?thesis unfolding Cons by (simp only: localeCompare_ex_le) simp
    next
      case False
      with xy yz have eq: "(of_char x :: nat) = of_char y" "(of_char y :: nat) = of_char z"
        and le: "localeCompare_ex xs ys \<le> 0" "localeCompare_ex ys zs \<le> 0"
        by linarith+
      have "localeCompare_ex xs zs \<le> 0"
        using "4.IH"[of zs] eq le by simp
      then show ?thesis unfolding Cons using eq by (simp only: localeCompare_ex_le) simp
    qed
  qed
qed

section \<open>The claims\<close>

subsection \<open>C1: the empty report collection\<close>




subsection \<open>C2 and C3: the cost trend\<close>



text \<open>
  Claim C3, as the code has it.  For one location visited five times, with the costs
  100, 100, 100, 5000, 5000 in the order of the dates, the recent window holds the last
  three costs 100, 5000, 5000, whose mean is 10100/3 (about 3366.7); the older window
  holds the first three costs 100, 100, 100, whose mean is 100; the trend is increasing.
\<close>

theorem five_visits_trend:
  assumes one: "\<forall>i\<in>set allItems. location i = loc"
    and dates: "\<forall>i\<in>set allItems. getTime (ti_reportDate i) = Num (t (ti_reportDate i))"
    and costs: "map cost (sort_key (\<lambda>i. t (ti_reportDate i)) allItems) = [100, 100, 100, 5000, 5000]"
  shows "window_means getTime allItems = [(loc, Num (10100 / 3), Num 100)] \<and>
         map costTrend (transportPatterns getTime allItems) = [Increasing]"
proof -
  have ne: "allItems \<noteq> []" using costs by auto
  let ?d = "\<lparr>visits = map visit_of allItems, ld_totalCost = sum_list (map cost allItems)\<rparr>"
  have lm: "locationMap_of allItems = [(loc, ?d)]" by (rule locationMap_single[OF ne one])
  let ?s = "sortedVisits_of getTime (map visit_of allItems)"
  have c: "map v_cost ?s = [100, 100, 100, 5000, 5000]"
    using sortedVisits_of_items[OF dates] costs by simp
  have l: "length ?s = 5" using arg_cong[OF c, of length] by simp
  have r: "recentCosts_of ?s = [100, 5000, 5000]"
    using c by (simp add: recentCosts_of_def js_slice_last3 l drop_map[symmetric] del: drop_map)
  have o: "olderCosts_of ?s = [100, 100, 100]"
    using c by (simp add: olderCosts_of_def js_slice_first3 take_map[symmetric] del: take_map)
  have w: "window_avg [100, 5000, 5000] = Num (10100 / 3)" "window_avg [100, 100, 100] = Num 100"
    by (simp_all add: window_avg_def js_reduce_def)
  have m: "window_means getTime allItems = [(loc, Num (10100 / 3), Num 100)]"
    by (simp add: window_means_def lm r o w)
  have t: "costTrend_of ?s = Increasing"
    by (simp add: costTrend_of_def Let_def r o w js_gt_def)
  have "map costTrend (transportPatterns getTime allItems) = [Increasing]"
    by (simp add: transportPatterns_def lm js_sort_def pattern_of_def Let_def t)
  with m show ?thesis by simp
qed

text \<open>The theorem at five reports of one visit each, one a day.\<close>

theorem five_visits_trend_witness:
  "list_all (\<lambda>i. location i = ''Lekki'') (allTransportItems five_visits) \<and>
   list_all (\<lambda>i. getTime_ex (ti_reportDate i) = Num (ms_ex (ti_reportDate i)))
     (allTransportItems five_visits) \<and>
   map cost (sort_key (\<lambda>i. ms_ex (ti_reportDate i)) (allTransportItems five_visits)) =
     [100, 100, 100, 5000, 5000] \<and>
   window_means getTime_ex (allTransportItems five_visits) =
     [(''Lekki'', Num (10100 / 3), Num 100)] \<and>
   map costTrend (transportPatterns getTime_ex (allTransportItems five_visits)) = [Increasing]"
proof -
  have a: "\<forall>i\<in>set (allTransportItems five_visits). location i = ''Lekki''"
    by code_simp
  have b: "\<forall>i\<in>set (allTransportItems five_visits).
       getTime_ex (ti_reportDate i) = Num (ms_ex (ti_reportDate i))"
    by code_simp
  have c: "map cost (sort_key (\<lambda>i. ms_ex (ti_reportDate i)) (allTransportItems five_visits)) =
     [100, 100, 100, 5000, 5000]"
    by code_simp
  show ?thesis
    using a b c five_visits_trend[OF a b c] by (simp add: list_all_iff)
qed

text \<open>
  Claim C3 as it is stated gives 3400 for the recent mean and 1066.7 for the older mean;
  the engine computes neither value (nor 3200/3, which rounds to 1066.7).
\<close>

theorem stated_means_of_five_visits_refuted:
  "window_means getTime_ex (allTransportItems five_visits) \<noteq> [(''Lekki'', Num 3400, Num (10667 / 10))] \<and>
   window_means getTime_ex (allTransportItems five_visits) \<noteq> [(''Lekki'', Num 3400, Num (3200 / 3))] \<and>
   fst (snd (hd (window_means getTime_ex (allTransportItems five_visits)))) \<noteq> Num 3400 \<and>
   snd (snd (hd (window_means getTime_ex (allTransportItems five_visits)))) \<noteq> Num (10667 / 10) \<and>
   snd (snd (hd (window_means getTime_ex (allTransportItems five_visits)))) \<noteq> Num (3200 / 3)"
  by code_simp

subsection \<open>C4: the frequent routes\<close>



subsection \<open>C5: the monthly trend\<close>

text \<open>
  Claim C5.  The monthly trend of the insights summary is read off the monthly totals in
  the order in which the months are first seen in the flattened items, not in the order
  of the calendar: it is the last total minus the one before it (the only total when
  there is one month, 0 when there is none).  The dates are dates that the platform can
  read (\<open>month\<close> gives the month of the report of an item), so the summary is returned.
\<close>

theorem monthlyTrend_insertion_order:
  assumes "\<forall>i\<in>set allItems. isoMonth (ti_reportDate i) = Some (month i)"
  shows "map_sum id monthlyTrend (generateAIInsights_costAnalysis isoMonth allItems) =
           Inr (spec_monthlyTrend (spec_monthly_totals month allItems))"
proof -
  from monthlyData_totals[OF assms] obtain md where
    "monthlyData_loop isoMonth [] allItems = Inr md" "map snd md = spec_monthly_totals month allItems"
    by blast
  then show ?thesis
    by (simp add: generateAIInsights_costAnalysis_def Let_def monthlyTrend_of_spec)
qed

text \<open>
  The theorem at a collection whose February report precedes its January report: the
  trend is the total of January minus the total of February.
\<close>

theorem monthlyTrend_insertion_order_witness:
  "list_all (\<lambda>i. isoMonth_ex (ti_reportDate i) = Some (take 7 (ti_reportDate i)))
     (allTransportItems feb_then_jan) \<and>
   map (\<lambda>i. take 7 (ti_reportDate i)) (allTransportItems feb_then_jan) = [''2025-02'', ''2025-01''] \<and>
   spec_monthly_totals (\<lambda>i. take 7 (ti_reportDate i)) (allTransportItems feb_then_jan) = [500, 200] \<and>
   map_sum id monthlyTrend (generateAIInsights_costAnalysis isoMonth_ex (allTransportItems feb_then_jan)) =
     Inr (- 300)"
proof -
  have h: "\<forall>i\<in>set (allTransportItems feb_then_jan).
             isoMonth_ex (ti_reportDate i) = Some (take 7 (ti_reportDate i))"
    by code_simp
  have m: "map (\<lambda>i. take 7 (ti_reportDate i)) (allTransportItems feb_then_jan) = [''2025-02'', ''2025-01'']"
    by code_simp
  have t: "spec_monthly_totals (\<lambda>i. take 7 (ti_reportDate i)) (allTransportItems feb_then_jan) = [500, 200]"
    by code_simp
  show ?thesis
    using h m monthlyTrend_insertion_order[OF h]
    by (simp add: list_all_iff t spec_monthlyTrend_def)
qed

subsection \<open>C6: the efficiency scores are not negative\<close>

text \<open>
  Claim C6.  Every efficiency score that the engine emits is a number that is at least
  zero: the score of each location in the pattern output, of each pair in the frequent
  routes and of each mode in the transport-efficiency output.  The theorem needs no
  hypothesis on the costs: every entry of a map counts at least one item, so no average
  is \<^verbatim>\<open>NaN\<close>, and the clamp does the rest.
\<close>

theorem efficiency_scores_nonneg:
  "(\<forall>p\<in>set (transportPatterns getTime allItems). js_nonneg (tp_efficiency p)) \<and>
   (\<forall>r\<in>set (fst (routeAnalysis localeCompare reports)). js_nonneg (fr_efficiency r)) \<and>
   (\<forall>e\<in>set (transportEfficiency allItems). js_nonneg (te_efficiency e))"
proof (intro conjI ballI)
  fix p assume "p \<in> set (transportPatterns getTime allItems)"
  then obtain k d where "(k, d) \<in> set (locationMap_of allItems)" "p = pattern_of getTime (k, d)"
    by (auto simp: transportPatterns_def set_js_sort)
  then show "js_nonneg (tp_efficiency p)" by (simp add: pattern_efficiency)
next
  fix r assume "r \<in> set (fst (routeAnalysis localeCompare reports))"
  then have "r \<in> set (map route_of (fst (routeMap_of localeCompare reports)))"
    by (auto simp: routeAnalysis_def Let_def frequentRoutes_of_def js_slice_first10 set_js_sort
        dest!: in_set_takeD)
  then obtain k d where "(k, d) \<in> set (fst (routeMap_of localeCompare reports))" "r = route_of (k, d)"
    by auto
  then show "js_nonneg (fr_efficiency r)" by (simp add: route_efficiency)
next
  fix e assume "e \<in> set (transportEfficiency allItems)"
  then obtain k d where "(k, d) \<in> set (efficiencyMap_of allItems)" "e = efficiency_of (k, d)"
    by (auto simp: transportEfficiency_def set_js_sort)
  then show "js_nonneg (te_efficiency e)" by (simp add: mode_efficiency_value)
qed

text \<open>The theorem at examples in which the clamp decides the score, and in which it does not.\<close>

theorem efficiency_scores_nonneg_witness:
  "map tp_efficiency (transportPatterns getTime_ex (allTransportItems one_costly_ride)) = [Num 0] \<and>
   list_all (\<lambda>p. js_nonneg (tp_efficiency p))
     (transportPatterns getTime_ex (allTransportItems one_costly_ride)) \<and>
   map fr_efficiency (fst (routeAnalysis localeCompare_ex [unsorted_report])) = [Num 94, Num 96] \<and>
   list_all (\<lambda>r. js_nonneg (fr_efficiency r)) (fst (routeAnalysis localeCompare_ex [unsorted_report])) \<and>
   map te_efficiency (transportEfficiency (allTransportItems one_costly_ride)) = [Num 0] \<and>
   list_all (\<lambda>e. js_nonneg (te_efficiency e)) (transportEfficiency (allTransportItems one_costly_ride))"
proof -
  have a: "map tp_efficiency (transportPatterns getTime_ex (allTransportItems one_costly_ride)) = [Num 0]"
    by code_simp
  have b: "map fr_efficiency (fst (routeAnalysis localeCompare_ex [unsorted_report])) = [Num 94, Num 96]"
    by code_simp
  have c: "map te_efficiency (transportEfficiency (allTransportItems one_costly_ride)) = [Num 0]"
    by code_simp
  show ?thesis
    using a b c
      efficiency_scores_nonneg[of getTime_ex "allTransportItems one_costly_ride" localeCompare_ex
        "[unsorted_report]"]
    by (simp add: list_all_iff)
qed

subsection \<open>C7: the efficiency of a transport mode\<close>

text \<open>
  Claim C7.  The transport-efficiency output has one entry for each transportation label
  of the items, and the efficiency of an entry is the larger of 0 and 100 minus a
  hundredth of the mean cost of the uses of its label; for a mode used once at a cost of
  10000 it is 0.  The divisor is 100, unlike the 50 of the efficiency of a location,
  which is the larger of 0 and 100 minus a fiftieth of the mean cost of its visits.
\<close>

theorem mode_efficiency_formula:
  "transportationType ` set (transportEfficiency allItems) = transportation ` set allItems \<and>
   (\<forall>e\<in>set (transportEfficiency allItems).
      te_efficiency e =
        Num (max 0 (100 - spec_mean (mode_costs allItems (transportationType e)) / 100)) \<and>
      (mode_costs allItems (transportationType e) = [10000] \<longrightarrow> te_efficiency e = Num 0)) \<and>
   (\<forall>p\<in>set (transportPatterns getTime allItems).
      tp_efficiency p =
        Num (max 0 (100 - spec_mean (location_costs allItems (tp_location p)) / 50)))"
proof (intro conjI ballI)
  have "transportationType ` set (transportEfficiency allItems) =
        fst ` set (efficiencyMap_of allItems)"
    by (force simp: transportEfficiency_def set_js_sort efficiency_of_def Let_def image_iff)
  also have "\<dots> = set (map fst (efficiencyMap_of allItems))" by simp
  also have "\<dots> = transportation ` set allItems"
    by (simp only: efficiencyMap_of_grouped fst_grouped set_first_seen set_map)
  finally show "transportationType ` set (transportEfficiency allItems) = transportation ` set allItems" .
next
  fix e assume "e \<in> set (transportEfficiency allItems)"
  then obtain k d where kd: "(k, d) \<in> set (efficiencyMap_of allItems)" "e = efficiency_of (k, d)"
    by (auto simp: transportEfficiency_def set_js_sort)
  have k: "transportationType e = k" by (simp add: kd efficiency_of_def Let_def)
  show v: "te_efficiency e =
        Num (max 0 (100 - spec_mean (mode_costs allItems (transportationType e)) / 100))"
    using mode_efficiency_value[OF kd(1)] by (simp add: kd(2) k[unfolded kd(2)])
  show "mode_costs allItems (transportationType e) = [10000] \<longrightarrow> te_efficiency e = Num 0"
    by (simp add: v spec_mean_def)
next
  fix p assume "p \<in> set (transportPatterns getTime allItems)"
  then obtain k d where kd: "(k, d) \<in> set (locationMap_of allItems)" "p = pattern_of getTime (k, d)"
    by (auto simp: transportPatterns_def set_js_sort)
  have k: "tp_location p = k" by (simp add: kd pattern_of_def Let_def)
  show "tp_efficiency p =
        Num (max 0 (100 - spec_mean (location_costs allItems (tp_location p)) / 50))"
    using pattern_efficiency_value[OF kd(1)] by (simp add: kd(2) k[unfolded kd(2)])
qed

text \<open>
  The theorem at a collection with one ride at a cost of 10000, and the two scores of a
  ride at a cost of 2500: 75 for its mode and 50 for its location.
\<close>

theorem mode_efficiency_formula_witness:
  "map transportationType (transportEfficiency (allTransportItems one_costly_ride)) = [''Charter''] \<and>
   mode_costs (allTransportItems one_costly_ride) ''Charter'' = [10000] \<and>
   map te_efficiency (transportEfficiency (allTransportItems one_costly_ride)) = [Num 0] \<and>
   map te_efficiency (transportEfficiency (allTransportItems one_plain_ride)) = [Num 75] \<and>
   map tp_efficiency (transportPatterns getTime_ex (allTransportItems one_plain_ride)) = [Num 50]"
proof -
  have a: "transportEfficiency (allTransportItems one_costly_ride) =
     [efficiency_of (''Charter'', \<lparr>usage = 1, ed_totalCost = 10000, ed_costs = [10000]\<rparr>)]"
    by code_simp
  have t: "transportationType (efficiency_of (''Charter'', \<lparr>usage = 1, ed_totalCost = 10000, ed_costs = [10000]\<rparr>)) = ''Charter''"
    by (simp add: efficiency_of_def Let_def)
  have c: "mode_costs (allTransportItems one_costly_ride) ''Charter'' = [10000]"
    by code_simp
  have "\<forall>e\<in>set (transportEfficiency (allTransportItems one_costly_ride)).
          mode_costs (allTransportItems one_costly_ride) (transportationType e) = [10000] \<longrightarrow>
          te_efficiency e = Num 0"
    using mode_efficiency_formula[of "allTransportItems one_costly_ride"] by blast
  then have "te_efficiency (efficiency_of (''Charter'', \<lparr>usage = 1, ed_totalCost = 10000, ed_costs = [10000]\<rparr>)) = Num 0"
    unfolding a using c t by simp
  moreover have "map te_efficiency (transportEfficiency (allTransportItems one_plain_ride)) = [Num 75]"
    by code_simp
  moreover have "map tp_efficiency (transportPatterns getTime_ex (allTransportItems one_plain_ride)) = [Num 50]"
    by code_simp
  ultimately show ?thesis using a c t by simp
qed

subsection \<open>C8: mutations without a user\<close>

text \<open>
  Claim C8.  When the identity service knows no user, each of the mutations create,
  update and delete asks for the user, raises the notification
  \<^verbatim>\<open>Authentication Required\<close> in its destructive variant and returns its failure value
  (\<^verbatim>\<open>null\<close> for create, \<^verbatim>\<open>false\<close> for update and delete); it makes no call to the
  persistence service.
\<close>

theorem unauthenticated_mutations:
  assumes "current_user b = None"
  shows "createReport b reportData =
           ([GetUser,
             Toast \<lparr>title = ''Authentication Required'',
                    toast_description = ''Please sign in to create reports.'',
                    variant = Destructive\<rparr>], None) \<and>
         updateReport b reportId reportData =
           ([GetUser,
             Toast \<lparr>title = ''Authentication Required'',
                    toast_description = ''Please sign in to update reports.'',
                    variant = Destructive\<rparr>], False) \<and>
         deleteReport b reportId =
           ([GetUser,
             Toast \<lparr>title = ''Authentication Required'',
                    toast_description = ''Please sign in to delete reports.'',
                    variant = Destructive\<rparr>], False) \<and>
         filter is_persist (fst (createReport b reportData)) = [] \<and>
         filter is_persist (fst (updateReport b reportId reportData)) = [] \<and>
         filter is_persist (fst (deleteReport b reportId)) = []"
  using assms by (simp add: createReport_def updateReport_def deleteReport_def)

text \<open>The theorem at a session without a user.\<close>

theorem unauthenticated_mutations_witness:
  "current_user signed_out = None \<and>
   snd (createReport signed_out unsorted_report) = None \<and>
   snd (updateReport signed_out ''r1'' unsorted_report) = False \<and>
   snd (deleteReport signed_out ''r1'') = False \<and>
   filter is_persist (fst (createReport signed_out unsorted_report)) = [] \<and>
   filter is_persist (fst (updateReport signed_out ''r1'' unsorted_report)) = [] \<and>
   filter is_persist (fst (deleteReport signed_out ''r1'')) = []"
proof -
  have u: "current_user signed_out = None" by (simp add: signed_out_def)
  show ?thesis
    using u unauthenticated_mutations[OF u, of unsorted_report "''r1''"] by simp
qed

subsection \<open>C9: currency formatting\<close>



subsection \<open>C10: the route analysis sorts the items of the reports\<close>

text \<open>
  Claim C10.  The route analysis leaves every report with its items sorted by location:
  the array of the report holds the same items as before, in the order of the sort
  (for a collation that is total and transitive, in the order of the collation of their
  locations), so the order in which the items were entered is lost.  In the example the
  items entered as Yaba, Ajah, Ikeja are left as Ajah, Ikeja, Yaba.
\<close>

theorem routeAnalysis_sorts_items_in_place:
  "snd (routeAnalysis localeCompare reports) =
     map (\<lambda>r. r\<lparr>items := sortedItems_of localeCompare (items r)\<rparr>) reports \<and>
   map (\<lambda>r. mset (items r)) (snd (routeAnalysis localeCompare reports)) =
     map (\<lambda>r. mset (items r)) reports \<and>
   ((\<forall>a b. localeCompare a b \<le> 0 \<or> localeCompare b a \<le> 0) \<and>
    (\<forall>a b c. localeCompare a b \<le> 0 \<and> localeCompare b c \<le> 0 \<longrightarrow> localeCompare a c \<le> 0) \<longrightarrow>
    (\<forall>r\<in>set (snd (routeAnalysis localeCompare reports)).
       sorted_wrt (\<lambda>x y. localeCompare (location x) (location y) \<le> 0) (items r))) \<and>
   map location (items unsorted_report) = [''Yaba'', ''Ajah'', ''Ikeja''] \<and>
   map (\<lambda>r. map location (items r)) (snd (routeAnalysis localeCompare_ex [unsorted_report])) =
     [[''Ajah'', ''Ikeja'', ''Yaba'']]"
proof -
  have a: "snd (routeAnalysis localeCompare reports) =
     map (\<lambda>r. r\<lparr>items := sortedItems_of localeCompare (items r)\<rparr>) reports"
    by (simp add: routeAnalysis_def routeMap_of_grouped Let_def)
  have b: "map (\<lambda>r. mset (items r)) (snd (routeAnalysis localeCompare reports)) =
     map (\<lambda>r. mset (items r)) reports"
    by (simp add: a sortedItems_of_def mset_js_sort comp_def)
  have s: "(\<forall>a b. localeCompare a b \<le> 0 \<or> localeCompare b a \<le> 0) \<and>
    (\<forall>a b c. localeCompare a b \<le> 0 \<and> localeCompare b c \<le> 0 \<longrightarrow> localeCompare a c \<le> 0) \<longrightarrow>
    (\<forall>r\<in>set (snd (routeAnalysis localeCompare reports)).
       sorted_wrt (\<lambda>x y. localeCompare (location x) (location y) \<le> 0) (items r))"
  proof (intro impI ballI)
    fix r
    assume h: "(\<forall>a b. localeCompare a b \<le> 0 \<or> localeCompare b a \<le> 0) \<and>
      (\<forall>a b c. localeCompare a b \<le> 0 \<and> localeCompare b c \<le> 0 \<longrightarrow> localeCompare a c \<le> 0)"
      and r: "r \<in> set (snd (routeAnalysis localeCompare reports))"
    from r[unfolded a] have "\<exists>r0 :: Report. items r = sortedItems_of localeCompare (items r0)"
      by force
    then obtain r0 :: Report where "items r = sortedItems_of localeCompare (items r0)" ..
    have tot: "localeCompare a b \<le> 0 \<or> localeCompare b a \<le> 0" for a b
      using conjunct1[OF h] by blast
    have tr: "localeCompare a b \<le> 0 \<Longrightarrow> localeCompare b c \<le> 0 \<Longrightarrow> localeCompare a c \<le> 0" for a b c
      using conjunct2[OF h] by blast
    have "sorted_wrt (\<lambda>x y. localeCompare (location x) (location y) \<le> 0)
                     (sortedItems_of localeCompare (items r0))"
      by (rule sortedItems_sorted[OF tot tr])
    with \<open>items r = sortedItems_of localeCompare (items r0)\<close>
    show "sorted_wrt (\<lambda>x y. localeCompare (location x) (location y) \<le> 0) (items r)"
      by simp
  qed
  have c: "map location (items unsorted_report) = [''Yaba'', ''Ajah'', ''Ikeja'']"
    by code_simp
  have d: "map (\<lambda>r. map location (items r)) (snd (routeAnalysis localeCompare_ex [unsorted_report])) =
     [[''Ajah'', ''Ikeja'', ''Yaba'']]"
    by code_simp
  show ?thesis by (intro conjI a b s c d)
qed

text \<open>The theorem at the report of the example; the collation of the examples is total and transitive.\<close>

theorem routeAnalysis_sorts_items_in_place_witness:
  "map items (snd (routeAnalysis localeCompare_ex [unsorted_report])) =
     [sortedItems_of localeCompare_ex (items unsorted_report)] \<and>
   map location (sortedItems_of localeCompare_ex (items unsorted_report)) =
     [''Ajah'', ''Ikeja'', ''Yaba''] \<and>
   list_all (\<lambda>r. sorted_wrt (\<lambda>x y. localeCompare_ex (location x) (location y) \<le> 0) (items r))
     (snd (routeAnalysis localeCompare_ex [unsorted_report]))"
proof -
  have l: "map location (sortedItems_of localeCompare_ex (items unsorted_report)) =
     [''Ajah'', ''Ikeja'', ''Yaba'']"
    by code_simp
  have t: "\<forall>a b. localeCompare_ex a b \<le> 0 \<or> localeCompare_ex b a \<le> 0"
    using localeCompare_ex_total by blast
  have u: "\<forall>a b c. localeCompare_ex a b \<le> 0 \<and> localeCompare_ex b c \<le> 0 \<longrightarrow> localeCompare_ex a c \<le> 0"
    using localeCompare_ex_trans by blast
  note th = routeAnalysis_sorts_items_in_place[of localeCompare_ex "[unsorted_report]"]
  have "\<forall>r\<in>set (snd (routeAnalysis localeCompare_ex [unsorted_report])).
       sorted_wrt (\<lambda>x y. localeCompare_ex (location x) (location y) \<le> 0) (items r)"
    by (rule mp[OF th[THEN conjunct2, THEN conjunct2, THEN conjunct1] conjI[OF t u]])
  moreover have "map items (snd (routeAnalysis localeCompare_ex [unsorted_report])) =
     [sortedItems_of localeCompare_ex (items unsorted_report)]"
    by (simp add: th[THEN conjunct1])
  ultimately show ?thesis
    using l by (simp add: list_all_iff)
qed

end
